(* ===== verification/Prelude.thy ===== *)
theory Prelude
  imports Main "HOL-Library.Word"
begin

text \<open>
  Shared vocabulary of the Flag-Jockey development: the machine types of the
  canvas API (\<open>Uint8ClampedArray\<close> samples as \<open>8 word\<close>, the \<open>Uint32Array\<close>
  accumulator as \<open>32 word\<close>), and the semantics of the JavaScript runtime
  features the source relies on: sparse arrays written by index
  (\<open>images[index] = img\<close>), their \<open>length\<close>, and \<open>forEach\<close>, which skips
  holes. These are runtime semantics, not code of the repository. The collection
  \<open>js_array_simps\<close> gathers the lemmas the component proofs use about them.
\<close>

named_theorems js_array_simps "characteristic equations of JavaScript sparse arrays"

type_synonym u8 = "8 word"
type_synonym u32 = "32 word"

text \<open>The samples of a canvas, as \<open>getImageData(...).data\<close> returns them:
  RGBA, row-major, four bytes per pixel.\<close>
type_synonym raster = "u8 list"

text \<open>A JavaScript array with holes: \<open>None\<close> is a hole, the list length is the
  array's \<open>length\<close> property.\<close>
type_synonym 'a js_array = "'a option list"

subsection \<open>Sparse arrays\<close>

text \<open>\<open>a[i] = v\<close>: inside the array an update; beyond its end the array grows
  to \<open>i + 1\<close> elements, the new slots between the old end and \<open>i\<close> being holes.\<close>

definition js_assign :: "'a js_array \<Rightarrow> nat \<Rightarrow> 'a \<Rightarrow> 'a js_array" where
  "js_assign xs i v =
     (if i < length xs then xs[i := Some v]
      else xs @ replicate (i - length xs) None @ [Some v])"

text \<open>The elements \<open>a.forEach\<close> visits, in index order; holes are skipped.\<close>

primrec js_present :: "'a js_array \<Rightarrow> 'a list" where
  "js_present [] = []"
| "js_present (x # xs) = (case x of None \<Rightarrow> js_present xs | Some v \<Rightarrow> v # js_present xs)"

text \<open>The array that index assignments build from \<open>[]\<close> has no trailing hole:
  \<open>js_trim\<close> drops the trailing holes of a list of slots.\<close>

definition js_trim :: "'a js_array \<Rightarrow> 'a js_array" where
  "js_trim xs = rev (dropWhile (\<lambda>x. x = None) (rev xs))"

lemma js_trim_Nil [simp, js_array_simps]: "js_trim [] = []"
  by (simp add: js_trim_def)

lemma js_trim_snoc_None [simp, js_array_simps]: "js_trim (xs @ [None]) = js_trim xs"
  by (simp add: js_trim_def)

lemma js_trim_snoc_Some [simp, js_array_simps]: "js_trim (xs @ [Some a]) = xs @ [Some a]"
  by (simp add: js_trim_def)

lemma js_trim_replicate_None [simp, js_array_simps]: "js_trim (replicate n None) = []"
  by (simp add: js_trim_def)

lemma js_assign_nonempty [js_array_simps]: "js_assign xs i v \<noteq> []"
proof -
  have "length (js_assign xs i v) \<noteq> 0"
    by (auto simp: js_assign_def)
  then show ?thesis by simp
qed

lemma js_trim_map_Some_append [simp, js_array_simps]:
  "js_trim (map Some xs @ replicate n None) = map Some xs"
proof (induction n)
  case 0
  then show ?case by (induction xs rule: rev_induct) simp_all
next
  case (Suc n)
  have "map Some xs @ replicate (Suc n) None = (map Some xs @ replicate n None) @ [None]"
    by (simp add: replicate_append_same)
  then show ?case
    by (simp only: js_trim_snoc_None Suc.IH)
qed

lemma js_trim_map_Some [simp, js_array_simps]: "js_trim (map Some xs) = map Some xs"
  using js_trim_map_Some_append [of xs 0] by simp

lemma js_trim_pad:
  "js_trim xs @ replicate (length xs - length (js_trim xs)) None = xs"
proof (induction xs rule: rev_induct)
  case Nil
  then show ?case by simp
next
  case (snoc x xs)
  show ?case
  proof (cases x)
    case None
    have "length (js_trim xs) \<le> length xs"
      using arg_cong [OF snoc.IH, of length] by simp
    then have "replicate (length (xs @ [x]) - length (js_trim xs)) None
        = replicate (length xs - length (js_trim xs)) None @ [None]"
      by (simp add: Suc_diff_le replicate_append_same)
    with None snoc.IH show ?thesis
      by (metis append_assoc js_trim_snoc_None)
  next
    case (Some a)
    then show ?thesis by simp
  qed
qed

lemma length_js_trim_le [js_array_simps]: "length (js_trim xs) \<le> length xs"
  using arg_cong [OF js_trim_pad [of xs], of length] by simp

lemma js_trim_eq_Nil_iff [js_array_simps]: "js_trim xs = [] \<longleftrightarrow> (\<forall>x \<in> set xs. x = None)"
proof
  assume "js_trim xs = []"
  then have "xs = replicate (length xs) None"
    using js_trim_pad [of xs] by simp
  then show "\<forall>x \<in> set xs. x = None"
    by (metis in_set_replicate)
next
  assume "\<forall>x \<in> set xs. x = None"
  then have "xs = replicate (length xs) None"
    by (simp add: replicate_length_same)
  then show "js_trim xs = []"
    by (metis js_trim_replicate_None)
qed

lemma js_present_append [simp, js_array_simps]:
  "js_present (xs @ ys) = js_present xs @ js_present ys"
  by (induction xs) (auto split: option.split)

lemma js_present_replicate_None [simp, js_array_simps]: "js_present (replicate n None) = []"
  by (induction n) auto

lemma js_present_js_trim [simp, js_array_simps]: "js_present (js_trim xs) = js_present xs"
proof -
  have "js_present xs = js_present (js_trim xs @ replicate (length xs - length (js_trim xs)) None)"
    by (simp only: js_trim_pad)
  then show ?thesis by simp
qed

lemma js_present_map_Some [simp, js_array_simps]: "js_present (map Some xs) = xs"
  by (induction xs) auto

lemma set_js_present [js_array_simps]: "x \<in> set (js_present xs) \<longleftrightarrow> Some x \<in> set xs"
  by (induction xs) (auto split: option.split)

lemma js_present_map_Some_fun [js_array_simps]:
  "js_present (map (\<lambda>x. Some (f x)) xs) = map f xs" "js_present (map (Some \<circ> f) xs) = map f xs"
  by (induction xs) auto

text \<open>Assigning into a trimmed array is trimming the updated slot list: the
  characterisation that makes the order of assignments irrelevant.\<close>

lemma js_assign_js_trim [js_array_simps]:
  "i < length xs \<Longrightarrow> js_assign (js_trim xs) i v = js_trim (xs[i := Some v])"
proof (induction xs arbitrary: i rule: rev_induct)
  case Nil
  then show ?case by simp
next
  case (snoc x xs)
  show ?case
  proof (cases "i < length xs")
    case True
    show ?thesis
    proof (cases x)
      case None
      with True snoc.IH show ?thesis by (simp add: list_update_append1)
    next
      case (Some a)
      with True show ?thesis by (simp add: js_assign_def list_update_append1)
    qed
  next
    case False
    with snoc.prems have i: "i = length xs" by simp
    show ?thesis
    proof (cases x)
      case None
      have "js_assign (js_trim xs) i v
          = (js_trim xs @ replicate (length xs - length (js_trim xs)) None) @ [Some v]"
        using i length_js_trim_le [of xs] by (simp add: js_assign_def)
      with None i show ?thesis by (simp only: js_trim_pad) simp
    next
      case (Some a)
      with i show ?thesis by (simp add: js_assign_def)
    qed
  qed
qed

end
