(* ===== verification/Pixels.thy ===== *)
theory Pixels
  imports Complex_Main Prelude
begin

text \<open>
  The pixel-averaging core of \<open>calculateAveragePixels\<close>
  (src/src/components/CombinedFlag.tsx, lines 24--83): the fixed 300x200 canvas,
  the per-image draw, read-back and accumulation into a \<open>Uint32Array\<close>, and the
  rounding of the sums into a \<open>Uint8ClampedArray\<close>. The browser's
  \<open>drawImage\<close> is a parameter \<open>draw_image img canvas\<close> (the canvas after the
  image is drawn, scaled to the canvas, onto the given canvas); the only property
  assumed of it is that it does not change the canvas size
  (\<open>canvas_preserving\<close>). The specification side is \<open>composite_spec\<close>: the
  per-sample mean, rounded half up and clamped, of the rasters of the decoded
  images (spec section 4.1, step 6).
\<close>

section \<open>Definitions\<close>

definition canvas_width :: nat where
  "canvas_width = 300"

definition canvas_height :: nat where
  "canvas_height = 200"

text \<open>\<open>canvas.width = width; canvas.height = height\<close>: setting the size resets
  every sample to transparent black.\<close>

definition blank_canvas :: "nat \<Rightarrow> nat \<Rightarrow> raster" where
  "blank_canvas w h = replicate (w * h * 4) 0"

text \<open>\<open>ctx.clearRect(0, 0, width, height)\<close> on the \<open>width\<close> x \<open>height\<close> canvas:
  every sample becomes 0.\<close>

definition clear_rect :: "raster \<Rightarrow> raster" where
  "clear_rect cv = map (\<lambda>_. 0) cv"

text \<open>\<open>for (let i = 0; i < data.length; i++) pixelSums[i] += data[i]\<close>: a
  \<open>Uint32Array\<close> addition wraps modulo \<open>2^32\<close>; a write past the end of a typed
  array is ignored.\<close>

fun add_pixel_values :: "u32 list \<Rightarrow> u8 list \<Rightarrow> u32 list" where
  "add_pixel_values (s # ss) (d # ds) = (s + ucast d) # add_pixel_values ss ds"
| "add_pixel_values ss [] = ss"
| "add_pixel_values [] ds = []"

text \<open>One iteration of \<open>images.forEach\<close>: clear, draw, read back, accumulate.
  The state is the scratch canvas and the sums.\<close>

definition draw_and_sum ::
  "('img \<Rightarrow> raster \<Rightarrow> raster) \<Rightarrow> 'img \<Rightarrow> raster \<times> u32 list \<Rightarrow> raster \<times> u32 list" where
  "draw_and_sum draw_image img acc =
     (let (cv, pixel_sums) = acc;
          cleared = clear_rect cv;
          drawn = draw_image img cleared;
          data = drawn
      in (drawn, add_pixel_values pixel_sums data))"

text \<open>\<open>Math.round(x)\<close> for \<open>x = s / d \<ge> 0\<close> is \<open>\<lfloor>x + 1/2\<rfloor>\<close>; on naturals that is
  \<open>(2s + d) div 2d\<close> (shown equal below).\<close>

definition round_div :: "nat \<Rightarrow> nat \<Rightarrow> nat" where
  "round_div s d = (2 * s + d) div (2 * d)"

text \<open>Storing a non-negative integer into a \<open>Uint8ClampedArray\<close> clamps it to 255.\<close>

definition clamped_u8 :: "nat \<Rightarrow> u8" where
  "clamped_u8 n = (if 255 \<le> n then 255 else word_of_nat n)"

text \<open>\<open>avgData[i] = Math.round(pixelSums[i] / divisor)\<close>. With divisor 0,
  \<open>s / 0\<close> is \<open>Infinity\<close> (stored as 255) for \<open>s > 0\<close> and \<open>NaN\<close> (stored as 0)
  for \<open>s = 0\<close>.\<close>

definition average_sample :: "u32 \<Rightarrow> nat \<Rightarrow> u8" where
  "average_sample s divisor =
     (if divisor = 0 then (if s = 0 then 0 else 255)
      else clamped_u8 (round_div (unat s) divisor))"

text \<open>\<open>const avgData = new Uint8ClampedArray(width * height * 4)\<close> and the loop
  \<open>for (let i = 0; i < pixelSums.length; i++) avgData[i] = Math.round(pixelSums[i] / divisor)\<close>.
  A write past the end of a typed array is ignored, as \<open>list_update\<close> beyond the
  length is. The loop index climbs towards \<open>pixelSums.length\<close>: it terminates
  by the measure \<open>length pixel_sums - i\<close>.\<close>

function avg_fill :: "u32 list \<Rightarrow> nat \<Rightarrow> nat \<Rightarrow> raster \<Rightarrow> raster" where
  "avg_fill pixel_sums divisor i avg_data =
     (if i < length pixel_sums
      then avg_fill pixel_sums divisor (Suc i) (avg_data[i := average_sample (pixel_sums ! i) divisor])
      else avg_data)"
  by pat_completeness auto
termination
  by (relation "measure (\<lambda>(pixel_sums, divisor, i, avg_data). length pixel_sums - i)") auto

declare avg_fill.simps [simp del]

definition average_loop :: "nat \<Rightarrow> u32 list \<Rightarrow> nat \<Rightarrow> raster" where
  "average_loop len pixel_sums divisor = avg_fill pixel_sums divisor 0 (replicate len 0)"

text \<open>The processing block run once every image has settled: sum the images
  \<open>forEach\<close> visits (holes skipped), divide by \<open>images.length\<close> (holes counted),
  and put the result on the canvas, whose data URL is what the promise resolves
  to. The result is the raster put on the canvas.\<close>

definition average_images ::
  "('img \<Rightarrow> raster \<Rightarrow> raster) \<Rightarrow> nat \<Rightarrow> nat \<Rightarrow> 'img js_array \<Rightarrow> raster \<Rightarrow> raster" where
  "average_images draw_image w h images cv =
     (let sums_init = replicate (w * h * 4) 0;
          (cv', pixel_sums) = fold (draw_and_sum draw_image) (js_present images) (cv, sums_init);
          divisor = length images
      in average_loop (w * h * 4) pixel_sums divisor)"

subsection \<open>Specification side\<close>

definition canvas_preserving :: "('img \<Rightarrow> raster \<Rightarrow> raster) \<Rightarrow> bool" where
  "canvas_preserving draw_image \<longleftrightarrow> (\<forall>img cv. length (draw_image img cv) = length cv)"

text \<open>The samples an image yields when drawn on a clean canvas.\<close>

definition rendered :: "('img \<Rightarrow> raster \<Rightarrow> raster) \<Rightarrow> nat \<Rightarrow> nat \<Rightarrow> 'img \<Rightarrow> raster" where
  "rendered draw_image w h img = draw_image img (blank_canvas w h)"

definition sample_sum :: "raster list \<Rightarrow> nat \<Rightarrow> nat" where
  "sample_sum rs k = sum_list (map (\<lambda>r. unat (r ! k)) rs)"

text \<open>Spec 4.1 step 6: per sample, the rounded (half up), clamped mean over the
  decoded rasters.\<close>

definition composite_spec :: "nat \<Rightarrow> raster list \<Rightarrow> raster" where
  "composite_spec len rs = map (\<lambda>k. clamped_u8 (round_div (sample_sum rs k) (length rs))) [0..<len]"

text \<open>A solid-colour raster of \<open>w\<close> x \<open>h\<close> pixels of colour \<open>px = [r, g, b, a]\<close>.\<close>

definition solid :: "nat \<Rightarrow> nat \<Rightarrow> u8 list \<Rightarrow> raster" where
  "solid w h px = concat (replicate (w * h) px)"

text \<open>An opaque image that covers the whole canvas, as a \<open>drawImage\<close>: it
  replaces the samples it covers.\<close>

definition draw_opaque :: "raster \<Rightarrow> raster \<Rightarrow> raster" where
  "draw_opaque img cv = take (length cv) (img @ cv)"

section \<open>Lemmas\<close>

lemma length_add_pixel_values [simp]: "length (add_pixel_values s d) = length s"
  by (induction s d rule: add_pixel_values.induct) auto

lemma nth_add_pixel_values:
  "k < length s \<Longrightarrow> k < length d \<Longrightarrow> add_pixel_values s d ! k = s ! k + ucast (d ! k)"
  by (induction s d arbitrary: k rule: add_pixel_values.induct) (auto simp: nth_Cons split: nat.split)

lemma clear_rect_blank: "length cv = w * h * 4 \<Longrightarrow> clear_rect cv = blank_canvas w h"
  by (simp add: clear_rect_def blank_canvas_def map_replicate_const)

lemma length_rendered:
  "canvas_preserving draw_image \<Longrightarrow> length (rendered draw_image w h img) = w * h * 4"
  by (simp add: canvas_preserving_def rendered_def blank_canvas_def)

lemma fold_draw_and_sum:
  assumes "canvas_preserving draw_image" and "length cv = w * h * 4"
  shows "fold (draw_and_sum draw_image) imgs (cv, s) =
     (if imgs = [] then cv else rendered draw_image w h (last imgs),
      fold (\<lambda>img acc. add_pixel_values acc (rendered draw_image w h img)) imgs s)"
  using assms(2)
proof (induction imgs arbitrary: cv s)
  case Nil
  then show ?case by simp
next
  case (Cons img imgs)
  have step: "draw_and_sum draw_image img (cv, s) =
      (rendered draw_image w h img, add_pixel_values s (rendered draw_image w h img))"
    using Cons.prems by (simp add: draw_and_sum_def rendered_def clear_rect_blank Let_def)
  have "length (rendered draw_image w h img) = w * h * 4"
    using assms(1) by (rule length_rendered)
  with step Cons.IH show ?case by simp
qed

lemma unat_u8_le: "unat (x :: u8) \<le> 255"
  using unsigned_less [of x, where ?'a = nat] by simp

lemma unat_ucast_u8: "unat (ucast (x :: u8) :: u32) = unat x"
  by (simp add: unsigned_ucast_eq take_bit_nat_eq_self_iff order.strict_trans2 [OF unsigned_less])

lemma unat_fold_add_pixel_values:
  "\<forall>r \<in> set rs. length r = length s \<Longrightarrow> k < length s \<Longrightarrow>
   unat (fold (\<lambda>r acc. add_pixel_values acc r) rs s ! k) = (unat (s ! k) + sample_sum rs k) mod 2 ^ 32"
proof (induction rs arbitrary: s)
  case Nil
  then show ?case by (simp add: sample_sum_def unsigned_less [of "s ! k", where ?'a = nat, simplified] )
next
  case (Cons r rs)
  let ?s' = "add_pixel_values s r"
  have "unat (fold (\<lambda>r acc. add_pixel_values acc r) rs ?s' ! k) = (unat (?s' ! k) + sample_sum rs k) mod 2 ^ 32"
    using Cons by simp
  moreover have "unat (?s' ! k) = (unat (s ! k) + unat (r ! k)) mod 2 ^ 32"
    using Cons.prems by (simp add: nth_add_pixel_values unat_word_ariths unat_ucast_u8)
  ultimately show ?case
    by (simp add: sample_sum_def mod_add_left_eq add.assoc)
qed

lemma sample_sum_le: "sample_sum rs k \<le> 255 * length rs"
  by (induction rs) (auto simp: sample_sum_def intro: add_mono unat_u8_le)


lemma round_div_le_255:
  assumes "s \<le> 255 * d"
  shows "round_div s d \<le> 255"
proof (cases "d = 0")
  case True
  then show ?thesis by (simp add: round_div_def)
next
  case False
  with assms have "2 * s + d < 256 * (2 * d)" by linarith
  then have "(2 * s + d) div (2 * d) < 256" by (rule less_mult_imp_div_less)
  then show ?thesis by (simp add: round_div_def)
qed

lemma clamped_u8_small: "n \<le> 255 \<Longrightarrow> clamped_u8 n = word_of_nat n"
  by (simp add: clamped_u8_def)

lemma length_js_present_le: "length (js_present xs) \<le> length xs"
  by (induction xs) (auto split: option.split)


lemma length_fold_add_pixel_values [simp]:
  "length (fold (\<lambda>r acc. add_pixel_values acc r) rs s) = length s"
  by (induction rs arbitrary: s) simp_all

lemma unat_sums_exact:
  assumes "\<forall>r \<in> set rs. length r = n" and "k < n" and "length rs \<le> 16843009"
  shows "unat (fold (\<lambda>r acc. add_pixel_values acc r) rs (replicate n 0) ! k) = sample_sum rs k"
proof -
  have "sample_sum rs k \<le> 255 * 16843009"
    using sample_sum_le [of rs k] assms(3) by linarith
  then have "sample_sum rs k < 2 ^ 32" by simp
  moreover have "unat (fold (\<lambda>r acc. add_pixel_values acc r) rs (replicate n 0) ! k)
      = (unat (replicate n (0::u32) ! k) + sample_sum rs k) mod 2 ^ 32"
    using assms(1,2) by (intro unat_fold_add_pixel_values) simp_all
  ultimately show ?thesis using assms(2) by simp
qed

lemma avg_fill_nth:
  "avg_fill pixel_sums divisor i avg_data =
     map (\<lambda>k. if i \<le> k \<and> k < length pixel_sums then average_sample (pixel_sums ! k) divisor else avg_data ! k)
       [0..<length avg_data]"
proof (induction pixel_sums divisor i avg_data rule: avg_fill.induct)
  case (1 pixel_sums divisor i avg_data)
  show ?case
  proof (cases "i < length pixel_sums")
    case True
    then have "avg_fill pixel_sums divisor i avg_data =
        avg_fill pixel_sums divisor (Suc i) (avg_data[i := average_sample (pixel_sums ! i) divisor])"
      by (simp add: avg_fill.simps)
    with True "1.IH" show ?thesis
      by (auto simp: nth_list_update not_less_eq_eq intro!: map_cong)
  next
    case False
    then have "map (\<lambda>k. if i \<le> k \<and> k < length pixel_sums then average_sample (pixel_sums ! k) divisor
                        else avg_data ! k) [0..<length avg_data] = map ((!) avg_data) [0..<length avg_data]"
      by (intro map_cong) auto
    with False show ?thesis
      by (simp add: avg_fill.simps map_nth)
  qed
qed

lemma length_avg_fill [simp]: "length (avg_fill pixel_sums divisor i avg_data) = length avg_data"
  by (induction pixel_sums divisor i avg_data rule: avg_fill.induct) (simp add: avg_fill.simps)

lemma length_average_images [simp]: "length (average_images draw_image w h images cv) = w * h * 4"
  by (simp add: average_images_def average_loop_def split_beta Let_def)

lemma average_loop_map:
  "length pixel_sums = len \<Longrightarrow>
   average_loop len pixel_sums divisor = map (\<lambda>s. average_sample s divisor) pixel_sums"
  by (intro nth_equalityI) (simp_all add: average_loop_def avg_fill_nth)

lemma average_images_wrap:
  assumes draw: "canvas_preserving draw_image" and cv: "length cv = w * h * 4" and nonempty: "images \<noteq> []"
  shows "average_images draw_image w h images cv =
     map (\<lambda>k. clamped_u8 (round_div (sample_sum (map (rendered draw_image w h) (js_present images)) k mod 2 ^ 32)
                                   (length images))) [0..<w * h * 4]"
proof -
  let ?rs = "map (rendered draw_image w h) (js_present images)"
  let ?sums = "fold (\<lambda>r acc. add_pixel_values acc r) ?rs (replicate (w * h * 4) 0)"
  have sums: "snd (fold (draw_and_sum draw_image) (js_present images) (cv, replicate (w * h * 4) 0)) = ?sums"
    using fold_draw_and_sum [OF draw cv] by (simp add: fold_map comp_def)
  have lens: "\<forall>r \<in> set ?rs. length r = w * h * 4"
    using draw by (simp add: length_rendered)
  have len_sums: "length ?sums = w * h * 4"
    by simp
  have avg: "average_sample (?sums ! k) (length images) =
        clamped_u8 (round_div (sample_sum ?rs k mod 2 ^ 32) (length images))" if k: "k < w * h * 4" for k
  proof -
    have "unat (?sums ! k) = sample_sum ?rs k mod 2 ^ 32"
      using unat_fold_add_pixel_values [of ?rs "replicate (w * h * 4) 0" k] lens k by simp
    then show ?thesis
      using nonempty by (simp add: average_sample_def)
  qed
  show ?thesis
    unfolding average_images_def average_loop_map [OF len_sums] Let_def split_beta sums
    by (rule nth_equalityI) (simp_all add: len_sums avg)
qed

lemma sample_sum_replicate: "sample_sum (replicate n r) k = n * unat (r ! k)"
  by (induction n) (simp_all add: sample_sum_def)

lemma average_images_eq:
  assumes draw: "canvas_preserving draw_image" and cv: "length cv = w * h * 4"
    and nonempty: "images \<noteq> []" and count: "length (js_present images) \<le> 16843009"
  shows "average_images draw_image w h images cv =
     map (\<lambda>k. word_of_nat (round_div (sample_sum (map (rendered draw_image w h) (js_present images)) k)
                                    (length images))) [0..<w * h * 4]"
proof -
  let ?rs = "map (rendered draw_image w h) (js_present images)"
  have "clamped_u8 (round_div (sample_sum ?rs k mod 2 ^ 32) (length images)) =
        word_of_nat (round_div (sample_sum ?rs k) (length images))" for k
  proof -
    have "length ?rs \<le> 16843009"
      using count by simp
    then have "sample_sum ?rs k \<le> 255 * 16843009"
      using sample_sum_le [of ?rs k] by linarith
    then have "sample_sum ?rs k < 2 ^ 32" by simp
    moreover have "sample_sum ?rs k \<le> 255 * length images"
      using sample_sum_le [of ?rs k] length_js_present_le [of images] by simp
    ultimately show ?thesis
      by (simp add: clamped_u8_small round_div_le_255)
  qed
  then show ?thesis
    using average_images_wrap [OF draw cv nonempty] by simp
qed


lemma nth_concat_replicate:
  "length px = m \<Longrightarrow> k < n * m \<Longrightarrow> concat (replicate n px) ! k = px ! (k mod m)"
proof (induction n arbitrary: k)
  case 0
  then show ?case by simp
next
  case (Suc n)
  show ?case
  proof (cases "k < m")
    case True
    with Suc.prems show ?thesis by (simp add: nth_append)
  next
    case False
    with Suc.prems have "concat (replicate n px) ! (k - m) = px ! ((k - m) mod m)"
      by (intro Suc.IH) simp_all
    with False Suc.prems show ?thesis by (simp add: nth_append le_mod_geq)
  qed
qed

lemma length_solid [simp]: "length (solid w h px) = w * h * length px"
  by (simp add: solid_def length_concat sum_list_replicate)

lemma sample_sum_solid:
  assumes "\<forall>px \<in> set pxs. length px = 4" and "k < w * h * 4"
  shows "sample_sum (map (solid w h) pxs) k = sample_sum pxs (k mod 4)"
  using assms unfolding sample_sum_def solid_def
  by (induction pxs) (simp_all add: nth_concat_replicate)

lemma composite_spec_solid:
  assumes "\<forall>px \<in> set pxs. length px = 4"
  shows "composite_spec (w * h * 4) (map (solid w h) pxs) = solid w h (composite_spec 4 pxs)"
proof (rule nth_equalityI)
  show "length (composite_spec (w * h * 4) (map (solid w h) pxs)) = length (solid w h (composite_spec 4 pxs))"
    by (simp add: composite_spec_def)
next
  fix k assume "k < length (composite_spec (w * h * 4) (map (solid w h) pxs))"
  then have k: "k < w * h * 4" by (simp add: composite_spec_def)
  have "solid w h (composite_spec 4 pxs) ! k = composite_spec 4 pxs ! (k mod 4)"
    using k unfolding solid_def by (intro nth_concat_replicate) (simp_all add: composite_spec_def)
  with k assms show "composite_spec (w * h * 4) (map (solid w h) pxs) ! k = solid w h (composite_spec 4 pxs) ! k"
    by (simp add: composite_spec_def sample_sum_solid)
qed

lemma canvas_preserving_draw_opaque: "canvas_preserving draw_opaque"
  by (auto simp: canvas_preserving_def draw_opaque_def simp del: take_append)

lemma rendered_draw_opaque:
  "length img = w * h * 4 \<Longrightarrow> rendered draw_opaque w h img = img"
  by (simp add: rendered_def draw_opaque_def blank_canvas_def)

lemma average_images_refines_spec:
  assumes "canvas_preserving draw_image" and "length cv = w * h * 4"
    and "imgs \<noteq> []" and "length imgs \<le> 16843009"
  shows "average_images draw_image w h (map Some imgs) cv =
         composite_spec (w * h * 4) (map (rendered draw_image w h) imgs)"
proof -
  have "sample_sum (map (rendered draw_image w h) imgs) k \<le> 255 * length imgs" for k
    using sample_sum_le by (metis length_map)
  then show ?thesis
    using assms by (simp add: average_images_eq composite_spec_def clamped_u8_small round_div_le_255)
qed

lemma nth_solid:
  "length px = 4 \<Longrightarrow> k < w * h * 4 \<Longrightarrow> solid w h px ! k = px ! (k mod 4)"
  unfolding solid_def by (rule nth_concat_replicate) simp_all

lemma average_images_solid:
  assumes "canvas_preserving draw_image" and "length cv = w * h * 4"
    and "images \<noteq> []" and "length (js_present images) \<le> 16843009"
    and "map (rendered draw_image w h) (js_present images) = map (solid w h) pxs"
    and "\<forall>px \<in> set pxs. length px = 4"
  shows "average_images draw_image w h images cv =
         solid w h (map (\<lambda>c. word_of_nat (round_div (sample_sum pxs c) (length images))) [0..<4])"
proof (rule nth_equalityI)
  show "length (average_images draw_image w h images cv) =
        length (solid w h (map (\<lambda>c. word_of_nat (round_div (sample_sum pxs c) (length images))) [0..<4]))"
    using assms(1-4) by (simp add: average_images_eq)
next
  fix k assume "k < length (average_images draw_image w h images cv)"
  then have k: "k < w * h * 4"
    using assms(1-4) by (simp add: average_images_eq)
  then show "average_images draw_image w h images cv ! k =
        solid w h (map (\<lambda>c. word_of_nat (round_div (sample_sum pxs c) (length images))) [0..<4]) ! k"
    using assms by (simp add: average_images_eq nth_solid sample_sum_solid)
qed

lemma round_div_one [simp]: "round_div s (Suc 0) = s"
  by (simp add: round_div_def)

lemma average_images_single:
  assumes "canvas_preserving draw_image" and "length cv = w * h * 4"
  shows "average_images draw_image w h [Some img] cv = rendered draw_image w h img"
proof (rule nth_equalityI)
  show "length (average_images draw_image w h [Some img] cv) = length (rendered draw_image w h img)"
    using assms by (simp add: average_images_eq length_rendered)
next
  fix k assume "k < length (average_images draw_image w h [Some img] cv)"
  then have "k < w * h * 4"
    using assms by (simp add: average_images_eq)
  then show "average_images draw_image w h [Some img] cv ! k = rendered draw_image w h img ! k"
    using assms by (simp add: average_images_eq sample_sum_def)
qed

section \<open>Properties\<close>

text \<open>C9. Reusing one scratch canvas for all images does not mix them: because
  every iteration clears the canvas before drawing, the sums after the
  \<open>forEach\<close> loop are those of each image drawn on a clean canvas, whatever the
  canvas held before.\<close>

theorem forEach_sums_independent_of_canvas:
  assumes "canvas_preserving draw_image" and "length cv = w * h * 4"
  shows "snd (fold (draw_and_sum draw_image) imgs (cv, s)) =
         fold (\<lambda>img acc. add_pixel_values acc (rendered draw_image w h img)) imgs s"
  using fold_draw_and_sum [OF assms] by simp

lemma forEach_sums_independent_of_canvas_witness:
  "canvas_preserving draw_opaque \<and> length [9, 9, 9, 9 :: u8] = 1 * 1 * 4 \<and>
   snd (fold (draw_and_sum draw_opaque) [[1, 2, 3, 4 :: u8]] ([9, 9, 9, 9], [0, 0, 0, 0])) =
   fold (\<lambda>img acc. add_pixel_values acc (rendered draw_opaque 1 1 img)) [[1, 2, 3, 4 :: u8]] [0, 0, 0, 0]"
  using forEach_sums_independent_of_canvas [OF canvas_preserving_draw_opaque,
          of "[9, 9, 9, 9]" 1 1 "[[1, 2, 3, 4]]" "[0, 0, 0, 0]"]
  by (simp add: canvas_preserving_draw_opaque)

text \<open>C10. The \<open>Uint32Array\<close> accumulator does not wrap for up to 16843009 images
  (\<open>16843009 * 255 = 2^32 - 1\<close>): each sum read back is the exact sum of the
  samples of the rendered images.\<close>

theorem pixel_sums_exact:
  assumes "canvas_preserving draw_image" and "length cv = w * h * 4"
    and "length imgs \<le> 16843009" and "k < w * h * 4"
  shows "unat (snd (fold (draw_and_sum draw_image) imgs (cv, replicate (w * h * 4) 0)) ! k) =
         sample_sum (map (rendered draw_image w h) imgs) k"
proof -
  have "snd (fold (draw_and_sum draw_image) imgs (cv, replicate (w * h * 4) 0)) =
        fold (\<lambda>r acc. add_pixel_values acc r) (map (rendered draw_image w h) imgs) (replicate (w * h * 4) 0)"
    using fold_draw_and_sum [OF assms(1,2)] by (simp add: fold_map comp_def)
  moreover have "\<forall>r \<in> set (map (rendered draw_image w h) imgs). length r = w * h * 4"
    using assms(1) by (simp add: length_rendered)
  ultimately show ?thesis
    using assms(3,4) by (simp add: unat_sums_exact)
qed

lemma pixel_sums_exact_witness:
  "canvas_preserving draw_opaque \<and> length (blank_canvas 1 1) = 1 * 1 * 4 \<and>
   length [[200, 0, 0, 255 :: u8], [100, 0, 0, 255]] \<le> 16843009 \<and> (0::nat) < 1 * 1 * 4 \<and>
   unat (snd (fold (draw_and_sum draw_opaque) [[200, 0, 0, 255 :: u8], [100, 0, 0, 255]]
                (blank_canvas 1 1, replicate (1 * 1 * 4) 0)) ! 0) = 300"
proof -
  have "unat (snd (fold (draw_and_sum draw_opaque) [[200, 0, 0, 255 :: u8], [100, 0, 0, 255]]
                (blank_canvas 1 1, replicate (1 * 1 * 4) 0)) ! 0) =
        sample_sum (map (rendered draw_opaque 1 1) [[200, 0, 0, 255 :: u8], [100, 0, 0, 255]]) 0"
    by (rule pixel_sums_exact [OF canvas_preserving_draw_opaque]) (simp_all add: blank_canvas_def)
  then show ?thesis
    by (simp add: canvas_preserving_draw_opaque blank_canvas_def sample_sum_def rendered_def draw_opaque_def)
qed

text \<open>C11. The integer rounding \<open>round_div\<close> is \<open>Math.round\<close> of the quotient:
  \<open>\<lfloor>s / d + 1/2\<rfloor>\<close>, halves rounded up.\<close>

theorem round_div_Math_round:
  assumes "0 < d"
  shows "int (round_div s d) = \<lfloor>real s / real d + 1 / 2\<rfloor>"
proof -
  have 1: "real s / real d + 1 / 2 = real (2 * s + d) / real (2 * d)"
    using assms by (simp add: field_simps)
  have 2: "\<lfloor>real (2 * s + d) / real (2 * d)\<rfloor> = int ((2 * s + d) div (2 * d))"
    by (rule floor_divide_of_nat_eq)
  show ?thesis
    by (simp only: 1 2 round_div_def)
qed

lemma round_div_Math_round_witness:
  "(0::nat) < 2 \<and> int (round_div 255 2) = \<lfloor>real 255 / real 2 + 1 / 2\<rfloor>"
  using round_div_Math_round [of 2 255] by simp

text \<open>C12. The clamp of the \<open>Uint8ClampedArray\<close> store is never active: when the
  divisor is at least the number of summed images (and the sum did not wrap),
  the stored average is exactly the rounded quotient, at most 255.\<close>

theorem average_sample_unclamped:
  assumes "0 < d" and "length rs \<le> d" and "length rs \<le> 16843009"
  shows "unat (average_sample (word_of_nat (sample_sum rs k)) d) = round_div (sample_sum rs k) d \<and>
         round_div (sample_sum rs k) d \<le> 255"
proof -
  have le: "sample_sum rs k \<le> 255 * length rs" by (rule sample_sum_le)
  with assms(3) have "sample_sum rs k \<le> 255 * 16843009" by linarith
  then have "sample_sum rs k < 2 ^ 32" by simp
  then have u: "unat (word_of_nat (sample_sum rs k) :: u32) = sample_sum rs k"
    by (simp add: unat_of_nat)
  from le assms(2) have r: "round_div (sample_sum rs k) d \<le> 255"
    by (intro round_div_le_255) linarith
  then have "unat (word_of_nat (round_div (sample_sum rs k) d) :: u8) = round_div (sample_sum rs k) d"
    by (simp add: unat_of_nat)
  with u r assms(1) show ?thesis
    by (simp add: average_sample_def clamped_u8_small)
qed

lemma average_sample_unclamped_witness:
  "(0::nat) < 2 \<and> length [[255 :: u8], [255]] \<le> 2 \<and> length [[255 :: u8], [255]] \<le> 16843009 \<and>
   unat (average_sample (word_of_nat (sample_sum [[255 :: u8], [255]] 0)) 2) = 255"
  using average_sample_unclamped [of 2 "[[255 :: u8], [255]]" 0]
  by (simp add: sample_sum_def round_div_def)

text \<open>C34. The averaging loop returns on every input (its index climbs to
  \<open>pixelSums.length\<close>) with the typed-array semantics written out: entry \<open>k\<close> of
  the \<open>len\<close> entries of \<open>avgData\<close> is the average of sum \<open>k\<close> where there is one,
  writes past the end of \<open>avgData\<close> are dropped, and entries with no sum stay 0.\<close>

theorem average_loop_typed_array:
  "average_loop len pixel_sums divisor =
     map (\<lambda>k. if k < length pixel_sums then average_sample (pixel_sums ! k) divisor else 0) [0..<len]"
  by (simp add: average_loop_def avg_fill_nth)

text \<open>C36. The bound of C10 is tight: one image more and the \<open>Uint32Array\<close>
  wraps. The composite of 16843010 opaque white images (shown on a 1x1 canvas)
  is transparent black, since \<open>16843010 * 255 mod 2^32 = 254\<close> and 254 divided
  by the image count rounds to 0; the spec's mean of those images is white.\<close>

theorem sums_wrap_beyond_bound:
  "average_images draw_opaque 1 1 (replicate 16843010 (Some [255, 255, 255, 255])) (blank_canvas 1 1) =
     [0, 0, 0, 0] \<and>
   composite_spec 4 (replicate 16843010 [255, 255, 255, 255]) = [255, 255, 255, 255]"
proof -
  define white :: raster where "white = [255, 255, 255, 255]"
  have white4: "white = replicate 4 255"
    by (simp add: white_def numeral_eq_Suc)
  have present: "js_present (replicate 16843010 (Some white)) = replicate 16843010 white"
    using js_present_map_Some [of "replicate 16843010 white"] by simp
  have drawn: "rendered draw_opaque (Suc 0) (Suc 0) white = white"
    by (simp add: rendered_def draw_opaque_def blank_canvas_def white_def)
  have sums: "sample_sum (replicate 16843010 white) k = 16843010 * 255" if "k < 4" for k
    using that by (simp add: sample_sum_replicate white4)
  have "average_images draw_opaque 1 1 (replicate 16843010 (Some white)) (blank_canvas 1 1) =
        map (\<lambda>k. clamped_u8 (round_div (sample_sum (replicate 16843010 white) k mod 2 ^ 32) 16843010)) [0..<4]"
    using average_images_wrap [OF canvas_preserving_draw_opaque, of "blank_canvas 1 1" 1 1
            "replicate 16843010 (Some white)"]
    by (simp add: present drawn blank_canvas_def)
  also have "\<dots> = map (\<lambda>k. clamped_u8 (round_div (16843010 * 255 mod 2 ^ 32) 16843010)) [0..<4]"
    using sums by (intro map_cong) simp_all
  also have "\<dots> = [0, 0, 0, 0]"
    by (simp add: round_div_def clamped_u8_def upt_rec)
  finally have avg: "average_images draw_opaque 1 1 (replicate 16843010 (Some white)) (blank_canvas 1 1) = [0, 0, 0, 0]" .
  have "composite_spec 4 (replicate 16843010 white) =
        map (\<lambda>k. clamped_u8 (round_div (16843010 * 255) 16843010)) [0..<4]"
    unfolding composite_spec_def using sums by (intro map_cong) simp_all
  also have "\<dots> = white"
    by (simp add: round_div_def clamped_u8_def upt_rec white_def)
  finally show ?thesis
    using avg by (simp add: white_def)
qed

end
