(* ===== verification/Loader.thy ===== *)
theory Loader
  imports Pixels
begin

text \<open>
  The asynchronous part of \<open>calculateAveragePixels\<close>
  (src/src/components/CombinedFlag.tsx, lines 13--150): the early rejections,
  one \<open>Image\<close> per URL, the \<open>onload\<close> and \<open>onerror\<close> handlers that count
  settled images in \<open>loadedCount\<close>, store loaded images at their index of the
  sparse array \<open>images\<close>, and run the averaging once the last image has settled.
  The browser delivers exactly one event per image, in an order the code does not
  control: a run is the fold of the handlers over the events of any permutation
  of the image indices. \<open>decode url\<close> is what the browser makes of one URL: the
  loaded image, or \<open>None\<close> when \<open>onerror\<close> fires. The promise is a field of the
  state: \<open>None\<close> while pending, and \<open>resolve\<close>/\<open>reject\<close> after it settled have
  no effect.
\<close>

section \<open>Definitions\<close>

text \<open>The rejections of the promise, by their messages in the source.\<close>

datatype calc_error =
    CanvasContextUnavailable  \<comment> \<open>\<open>'Could not get canvas context'\<close>\<close>
  | NoImagesToProcess         \<comment> \<open>\<open>'No images to process'\<close>\<close>
  | AllImagesFailed           \<comment> \<open>\<open>'All images failed to load'\<close>\<close>
  | ReadBackFailed            \<comment> \<open>the error a \<open>catch\<close> of the processing block rethrows\<close>

datatype 'img load_event =
    ImageLoad nat 'img   \<comment> \<open>\<open>img.onload\<close> of the image at that index\<close>
  | ImageError nat       \<comment> \<open>\<open>img.onerror\<close> of the image at that index\<close>

record 'img loader =
  images :: "'img js_array"
  loaded_count :: nat
  canvas :: raster
  promise :: "(calc_error + raster) option"

text \<open>\<open>resolve\<close> or \<open>reject\<close>: only the first call settles the promise.\<close>

definition settle :: "'img loader \<Rightarrow> calc_error + raster \<Rightarrow> 'img loader" where
  "settle st r = (if promise st = None then st\<lparr>promise := Some r\<rparr> else st)"

text \<open>The \<open>try\<close> block shared by both handlers (lines 48--86 and 95--133):
  average, \<open>putImageData\<close>, \<open>resolve(canvas.toDataURL())\<close>, and its \<open>catch\<close>.
  \<open>tainted img\<close> says that drawing \<open>img\<close> makes the canvas origin-unclean;
  from then on \<open>getImageData\<close> throws a \<open>SecurityError\<close> (clearing the canvas
  does not make it clean again), so the \<open>forEach\<close> throws at the first such image
  it visits and the \<open>catch\<close> rejects the promise. The scratch canvas is left as
  it was in that branch: nothing reads it once the promise is rejected. Nothing
  else in the block throws: \<open>new ImageData(avgData, width, height)\<close> gets an
  array of the size it requires (C27).\<close>

definition process_images ::
  "('img \<Rightarrow> raster \<Rightarrow> raster) \<Rightarrow> ('img \<Rightarrow> bool) \<Rightarrow> 'img loader \<Rightarrow> 'img loader" where
  "process_images draw_image tainted st =
     (if list_ex tainted (js_present (images st)) then settle st (Inl ReadBackFailed)
      else let avg = average_images draw_image canvas_width canvas_height (images st) (canvas st)
           in settle (st\<lparr>canvas := avg\<rparr>) (Inr avg))"

definition on_load ::
  "('img \<Rightarrow> raster \<Rightarrow> raster) \<Rightarrow> ('img \<Rightarrow> bool) \<Rightarrow> nat \<Rightarrow> nat \<Rightarrow> 'img \<Rightarrow> 'img loader \<Rightarrow> 'img loader" where
  "on_load draw_image tainted url_count index img st =
     (let st1 = st\<lparr>images := js_assign (images st) index img,
                   loaded_count := Suc (loaded_count st)\<rparr>
      in if loaded_count st1 = url_count then process_images draw_image tainted st1 else st1)"

definition on_error ::
  "('img \<Rightarrow> raster \<Rightarrow> raster) \<Rightarrow> ('img \<Rightarrow> bool) \<Rightarrow> nat \<Rightarrow> 'img loader \<Rightarrow> 'img loader" where
  "on_error draw_image tainted url_count st =
     (let st1 = st\<lparr>loaded_count := Suc (loaded_count st)\<rparr>
      in if loaded_count st1 = url_count \<and> 0 < length (images st1) then process_images draw_image tainted st1
         else if loaded_count st1 = url_count \<and> length (images st1) = 0
         then settle st1 (Inl AllImagesFailed)
         else st1)"

fun on_event ::
  "('img \<Rightarrow> raster \<Rightarrow> raster) \<Rightarrow> ('img \<Rightarrow> bool) \<Rightarrow> nat \<Rightarrow> 'img load_event \<Rightarrow> 'img loader \<Rightarrow> 'img loader" where
  "on_event draw_image tainted url_count (ImageLoad index img) st = on_load draw_image tainted url_count index img st"
| "on_event draw_image tainted url_count (ImageError index) st = on_error draw_image tainted url_count st"

text \<open>\<open>loadImage(url, index)\<close> ends in exactly one event, decided by the browser's
  decoding of \<open>img.src = url\<close>; the events arrive in the order \<open>order\<close> of the
  indices.\<close>

definition load_event :: "(string \<Rightarrow> 'img option) \<Rightarrow> string list \<Rightarrow> nat \<Rightarrow> 'img load_event" where
  "load_event decode urls index =
     (case decode (urls ! index) of Some img \<Rightarrow> ImageLoad index img | None \<Rightarrow> ImageError index)"

definition load_events ::
  "(string \<Rightarrow> 'img option) \<Rightarrow> string list \<Rightarrow> nat list \<Rightarrow> 'img load_event list" where
  "load_events decode urls order = map (load_event decode urls) order"

text \<open>The state after the canvas is sized and before any image settled.\<close>

definition initial_loader :: "'img loader" where
  "initial_loader =
     \<lparr>images = [], loaded_count = 0, canvas = blank_canvas canvas_width canvas_height, promise = None\<rparr>"

text \<open>The whole call: the outcome of the promise after the events of \<open>order\<close>
  (\<open>None\<close>: still pending).\<close>

definition calculate_average_pixels ::
  "bool \<Rightarrow> ('img \<Rightarrow> raster \<Rightarrow> raster) \<Rightarrow> ('img \<Rightarrow> bool) \<Rightarrow> (string \<Rightarrow> 'img option) \<Rightarrow> string list \<Rightarrow> nat list
   \<Rightarrow> (calc_error + raster) option" where
  "calculate_average_pixels has_context draw_image tainted decode urls order =
     (if \<not> has_context then Some (Inl CanvasContextUnavailable)
      else if urls = [] then Some (Inl NoImagesToProcess)
      else promise (fold (on_event draw_image tainted (length urls)) (load_events decode urls order) initial_loader))"

subsection \<open>Reference result\<close>

text \<open>The outcome as a function of the inputs alone: the sparse array the
  handlers build holds the decoded images at their indices, up to the last one
  that loaded; \<open>final_outcome\<close> is what the handler of the last event does with
  it.\<close>

definition final_outcome ::
  "('img \<Rightarrow> raster \<Rightarrow> raster) \<Rightarrow> ('img \<Rightarrow> bool) \<Rightarrow> 'img js_array \<Rightarrow> calc_error + raster" where
  "final_outcome draw_image tainted imgs =
     (if imgs = [] then Inl AllImagesFailed
      else if list_ex tainted (js_present imgs) then Inl ReadBackFailed
      else Inr (average_images draw_image canvas_width canvas_height imgs (blank_canvas canvas_width canvas_height)))"

definition composite_result ::
  "bool \<Rightarrow> ('img \<Rightarrow> raster \<Rightarrow> raster) \<Rightarrow> ('img \<Rightarrow> bool) \<Rightarrow> (string \<Rightarrow> 'img option) \<Rightarrow> string list \<Rightarrow> calc_error + raster" where
  "composite_result has_context draw_image tainted decode urls =
     (if \<not> has_context then Inl CanvasContextUnavailable
      else if urls = [] then Inl NoImagesToProcess
      else final_outcome draw_image tainted (js_trim (map decode urls)))"

text \<open>The slots of the indices in \<open>P\<close> that have settled.\<close>

definition settled_slots :: "(string \<Rightarrow> 'img option) \<Rightarrow> string list \<Rightarrow> nat set \<Rightarrow> 'img js_array" where
  "settled_slots decode urls P = map (\<lambda>j. if j \<in> P then decode (urls ! j) else None) [0..<length urls]"

definition pending_loader :: "(string \<Rightarrow> 'img option) \<Rightarrow> string list \<Rightarrow> nat set \<Rightarrow> nat \<Rightarrow> 'img loader" where
  "pending_loader decode urls P c =
     \<lparr>images = js_trim (settled_slots decode urls P), loaded_count = c,
      canvas = blank_canvas canvas_width canvas_height, promise = None\<rparr>"

text \<open>What a settled promise may hold: a resolved raster has the size of the
  \<open>width\<close> x \<open>height\<close> RGBA canvas.\<close>

definition promise_raster_ok :: "'img loader \<Rightarrow> bool" where
  "promise_raster_ok st =
     (case promise st of Some (Inr r) \<Rightarrow> length r = canvas_width * canvas_height * 4 | _ \<Rightarrow> True)"

text \<open>Images that never taint the canvas: flags served from the page's own
  origin, as the page requests them.\<close>

definition no_taint :: "'img \<Rightarrow> bool" where
  "no_taint img = False"

section \<open>Lemmas\<close>

lemma no_taint_False [simp]: "no_taint img = False"
  by (simp add: no_taint_def)

lemma length_settled_slots [simp]: "length (settled_slots decode urls P) = length urls"
  by (simp add: settled_slots_def)

lemma settled_slots_load:
  "i < length urls \<Longrightarrow> decode (urls ! i) = Some img \<Longrightarrow>
   (settled_slots decode urls P)[i := Some img] = settled_slots decode urls (insert i P)"
  by (rule nth_equalityI) (auto simp: settled_slots_def nth_list_update)

lemma settled_slots_error:
  "decode (urls ! i) = None \<Longrightarrow> settled_slots decode urls (insert i P) = settled_slots decode urls P"
  by (auto simp: settled_slots_def)

lemma settled_slots_all: "settled_slots decode urls {0..<length urls} = map decode urls"
  by (rule nth_equalityI) (simp_all add: settled_slots_def)

lemma initial_loader_pending: "initial_loader = pending_loader decode urls {} 0"
  by (simp add: initial_loader_def pending_loader_def settled_slots_def map_replicate_trivial)

lemma on_event_pending:
  assumes "i < length urls" and "Suc c < length urls"
  shows "on_event draw_image tainted (length urls) (load_event decode urls i) (pending_loader decode urls P c) =
         pending_loader decode urls (insert i P) (Suc c)"
proof (cases "decode (urls ! i)")
  case None
  with assms show ?thesis
    by (simp add: load_event_def on_error_def pending_loader_def settled_slots_error)
next
  case (Some img)
  with assms show ?thesis
    by (simp add: load_event_def on_load_def pending_loader_def js_assign_js_trim settled_slots_load)
qed

lemma on_event_last:
  assumes "i < length urls" and "Suc c = length urls" and "insert i P = {0..<length urls}"
  shows "promise (on_event draw_image tainted (length urls) (load_event decode urls i) (pending_loader decode urls P c)) =
         Some (final_outcome draw_image tainted (js_trim (map decode urls)))"
proof (cases "decode (urls ! i)")
  case None
  then have "js_trim (settled_slots decode urls P) = js_trim (map decode urls)"
    using assms(3) by (metis settled_slots_all settled_slots_error)
  with None assms(2) show ?thesis
    by (simp add: load_event_def on_error_def pending_loader_def final_outcome_def
        process_images_def settle_def Let_def)
next
  case (Some img)
  then have "js_assign (js_trim (settled_slots decode urls P)) i img = js_trim (map decode urls)"
    using assms by (simp add: js_assign_js_trim settled_slots_load settled_slots_all)
  with Some assms(2) show ?thesis
    using js_assign_nonempty [of "js_trim (settled_slots decode urls P)" i img]
    by (simp add: load_event_def on_load_def pending_loader_def final_outcome_def
        process_images_def settle_def Let_def)
qed

lemma fold_pending:
  assumes "distinct ps" and "set ps \<subseteq> {0..<length urls}" and "length ps < length urls"
  shows "fold (on_event draw_image tainted (length urls)) (load_events decode urls ps) initial_loader =
         pending_loader decode urls (set ps) (length ps)"
  using assms
proof (induction ps rule: rev_induct)
  case Nil
  then show ?case by (simp add: load_events_def initial_loader_pending)
next
  case (snoc i ps)
  then have "fold (on_event draw_image tainted (length urls)) (load_events decode urls ps) initial_loader =
         pending_loader decode urls (set ps) (length ps)" by simp
  with snoc.prems show ?case
    by (simp add: load_events_def on_event_pending)
qed


lemma length_order:
  assumes "distinct order" and "set order = {0..<n}"
  shows "length order = n"
  using distinct_card [OF assms(1)] assms(2) by simp

lemma length_blank_canvas [simp]: "length (blank_canvas w h) = w * h * 4"
  by (simp add: blank_canvas_def)

lemma map_decode_successes:
  assumes "\<forall>u \<in> set ok. decode u \<noteq> None" and "\<forall>u \<in> set bad. decode u = None"
  shows "map decode (ok @ bad) = map Some (map (\<lambda>u. the (decode u)) ok) @ replicate (length bad) None"
proof -
  have "map decode ok = map Some (map (\<lambda>u. the (decode u)) ok)"
    using assms(1) by (induction ok) auto
  moreover have "map decode bad = replicate (length bad) None"
    using assms(2) by (induction bad) auto
  ultimately show ?thesis by simp
qed

lemma on_event_raster_ok:
  "promise_raster_ok st \<Longrightarrow> promise_raster_ok (on_event draw_image tainted n ev st)"
  by (cases ev)
     (auto simp: promise_raster_ok_def on_load_def on_error_def process_images_def settle_def Let_def
           split: option.split sum.split)

lemma fold_raster_ok:
  "promise_raster_ok st \<Longrightarrow> promise_raster_ok (fold (on_event draw_image tainted n) evs st)"
  by (induction evs arbitrary: st) (simp_all add: on_event_raster_ok)

lemma promise_after_all_events:
  assumes "distinct order" and "set order = {0..<length urls}" and "urls \<noteq> []"
  shows "promise (fold (on_event draw_image tainted (length urls)) (load_events decode urls order) initial_loader) =
         Some (final_outcome draw_image tainted (js_trim (map decode urls)))"
proof -
  from assms(2,3) have "order \<noteq> []" by auto
  then obtain ps i where order: "order = ps @ [i]" by (metis rev_exhaust)
  have n: "Suc (length ps) = length urls"
    using length_order [OF assms(1,2)] order by simp
  have i: "i < length urls" and ins: "insert i (set ps) = {0..<length urls}"
    using assms(2) order by auto
  have "fold (on_event draw_image tainted (length urls)) (load_events decode urls ps) initial_loader =
        pending_loader decode urls (set ps) (length ps)"
    using assms(1,2) order n by (intro fold_pending) auto
  then show ?thesis
    using on_event_last [OF i n ins] order by (simp add: load_events_def)
qed

section \<open>Properties\<close>

text \<open>C1. Whatever order the browser delivers the load and error events in, the
  promise settles, and with the same value: the reference result computed from
  the inputs alone. The accumulation follows the index order of \<open>images\<close>, not
  the arrival order.\<close>

theorem calculate_average_pixels_settles:
  assumes "distinct order" and "set order = {0..<length urls}"
  shows "calculate_average_pixels has_context draw_image tainted decode urls order =
         Some (composite_result has_context draw_image tainted decode urls)"
proof (cases "has_context \<and> urls \<noteq> []")
  case False
  then show ?thesis by (auto simp: calculate_average_pixels_def composite_result_def)
next
  case True
  with promise_after_all_events [OF assms] show ?thesis
    by (simp add: calculate_average_pixels_def composite_result_def)
qed

lemma calculate_average_pixels_settles_witness:
  "distinct [1, 0 :: nat] \<and> set [1, 0 :: nat] = {0..<length [''a'', ''b'']} \<and>
   calculate_average_pixels True draw_opaque no_taint (\<lambda>u. if u = ''a'' then Some [1, 2, 3, 4 :: u8] else None)
     [''a'', ''b''] [1, 0] =
   Some (composite_result True draw_opaque no_taint (\<lambda>u. if u = ''a'' then Some [1, 2, 3, 4 :: u8] else None)
     [''a'', ''b''])"
  using calculate_average_pixels_settles [of "[1, 0]" "[''a'', ''b'']" True draw_opaque no_taint
          "\<lambda>u. if u = ''a'' then Some [1, 2, 3, 4 :: u8] else None"]
  by (auto simp flip: set_upt)

text \<open>C2. The barrier: before the last of the events has arrived, the promise is
  still pending; no composite is produced from a subset of the images.\<close>

theorem calculate_average_pixels_waits_for_all:
  assumes "distinct order" and "set order = {0..<length urls}" and "k < length urls"
  shows "promise (fold (on_event draw_image tainted (length urls)) (take k (load_events decode urls order))
           initial_loader) = None"
proof -
  have "distinct (take k order)" and "set (take k order) \<subseteq> {0..<length urls}"
    using assms(1,2) set_take_subset [of k order] by auto
  moreover have "length (take k order) < length urls"
    using assms(3) by simp
  ultimately have "fold (on_event draw_image tainted (length urls)) (load_events decode urls (take k order)) initial_loader =
        pending_loader decode urls (set (take k order)) (length (take k order))"
    by (rule fold_pending)
  then show ?thesis
    by (simp add: load_events_def take_map pending_loader_def)
qed

lemma calculate_average_pixels_waits_for_all_witness:
  "distinct [1, 0 :: nat] \<and> set [1, 0 :: nat] = {0..<length [''a'', ''b'']} \<and> (1::nat) < length [''a'', ''b''] \<and>
   promise (fold (on_event draw_opaque no_taint (length [''a'', ''b'']))
     (take 1 (load_events (\<lambda>u. Some [1, 2, 3, 4 :: u8]) [''a'', ''b''] [1, 0])) initial_loader) = None"
  using calculate_average_pixels_waits_for_all [of "[1, 0]" "[''a'', ''b'']" 1 draw_opaque no_taint "\<lambda>u. Some [1, 2, 3, 4 :: u8]"]
  by (auto simp flip: set_upt)


text \<open>C3. The composite is the spec's mean of the decoded images when every
  source that failed comes after the last one that loaded: those failures are
  excluded entirely, not treated as black.\<close>

theorem composite_result_trailing_failures:
  assumes "canvas_preserving draw_image" and "ok \<noteq> []" and "length ok \<le> 16843009"
    and "\<forall>u \<in> set ok. decode u \<noteq> None" and "\<forall>u \<in> set bad. decode u = None"
    and "\<forall>u \<in> set ok. \<not> tainted (the (decode u))"
  shows "composite_result True draw_image tainted decode (ok @ bad) =
         Inr (composite_spec (canvas_width * canvas_height * 4)
               (map (\<lambda>u. rendered draw_image canvas_width canvas_height (the (decode u))) ok))"
proof -
  let ?imgs = "map (\<lambda>u. the (decode u)) ok"
  have "js_trim (map decode (ok @ bad)) = map Some ?imgs"
    by (simp only: map_decode_successes [OF assms(4,5)] js_trim_map_Some_append)
  moreover have "average_images draw_image canvas_width canvas_height (map Some ?imgs)
                   (blank_canvas canvas_width canvas_height) =
                 composite_spec (canvas_width * canvas_height * 4) (map (rendered draw_image canvas_width canvas_height) ?imgs)"
    using assms(1-3) by (intro average_images_refines_spec) simp_all
  ultimately show ?thesis
    using assms(2,6) by (simp add: composite_result_def final_outcome_def comp_def list_ex_iff js_present_map_Some_fun)
qed

lemma composite_result_trailing_failures_witness:
  "canvas_preserving draw_opaque \<and> [''a''] \<noteq> [] \<and> length [''a''] \<le> 16843009 \<and>
   (\<lambda>u. if u = ''a'' then Some (blank_canvas 300 200) else None) ''a'' \<noteq> None \<and>
   (\<lambda>u. if u = ''a'' then Some (blank_canvas 300 200) else None) ''b'' = None \<and>
   \<not> no_taint (the ((\<lambda>u. if u = ''a'' then Some (blank_canvas 300 200) else None) ''a'')) \<and>
   composite_result True draw_opaque no_taint (\<lambda>u. if u = ''a'' then Some (blank_canvas 300 200) else None) ([''a''] @ [''b'']) =
   Inr (composite_spec (canvas_width * canvas_height * 4)
         (map (\<lambda>u. rendered draw_opaque canvas_width canvas_height
                    (the ((\<lambda>u. if u = ''a'' then Some (blank_canvas 300 200) else None) u))) [''a'']))"
  using composite_result_trailing_failures [OF canvas_preserving_draw_opaque, of "[''a'']"
          "\<lambda>u. if u = ''a'' then Some (blank_canvas 300 200) else None" "[''b'']" no_taint]
  by (simp add: canvas_preserving_draw_opaque)

text \<open>C4. A source that fails before one that loads is not excluded: \<open>images\<close>
  keeps a hole at its index, \<open>images.length\<close> counts it, and the divisor is too
  large. With the first of two flags failing and the second pure red, the code
  produces a half-transparent dark red where the spec's mean over the decoded
  images is the red flag itself.\<close>

theorem composite_result_failed_first:
  "composite_result True draw_opaque no_taint (\<lambda>u. if u = ''b'' then Some (solid 300 200 [255, 0, 0, 255]) else None)
     [''a'', ''b''] = Inr (solid 300 200 [128, 0, 0, 128]) \<and>
   composite_spec (300 * 200 * 4) [solid 300 200 [255, 0, 0, 255]] = solid 300 200 [255, 0, 0, 255]"
proof
  let ?red = "solid 300 200 [255, 0, 0, 255]"
  have "average_images draw_opaque 300 200 [None, Some ?red] (blank_canvas 300 200) =
        solid 300 200 (map (\<lambda>c. word_of_nat (round_div (sample_sum [[255, 0, 0, 255]] c)
                                  (length [None, Some ?red]))) [0..<4])"
    by (rule average_images_solid [where pxs = "[[255, 0, 0, 255]]"])
       (simp_all add: canvas_preserving_draw_opaque rendered_draw_opaque)
  then show "composite_result True draw_opaque no_taint (\<lambda>u. if u = ''b'' then Some ?red else None)
     [''a'', ''b''] = Inr (solid 300 200 [128, 0, 0, 128])"
    by (simp add: composite_result_def final_outcome_def canvas_width_def canvas_height_def js_trim_def
                  sample_sum_def round_div_def upt_rec)
next
  have "composite_spec (300 * 200 * 4) (map (solid 300 200) [[255, 0, 0, 255]]) =
        solid 300 200 (composite_spec 4 [[255, 0, 0, 255]])"
    by (rule composite_spec_solid) simp
  moreover have "composite_spec 4 [[255, 0, 0, 255]] = [255, 0, 0, 255]"
    by (simp add: composite_spec_def sample_sum_def round_div_def clamped_u8_def upt_rec)
  ultimately show "composite_spec (300 * 200 * 4) [solid 300 200 [255, 0, 0, 255]] = solid 300 200 [255, 0, 0, 255]"
    by simp
qed


text \<open>C5. Spec section 8: for sources that all decode to solid colours, the
  composite is the solid colour whose channels are the rounded means of the
  sources' channels.\<close>

theorem composite_result_solid_colours:
  assumes "canvas_preserving draw_image" and "urls \<noteq> []" and "length urls \<le> 16843009"
    and "\<forall>u \<in> set urls. decode u \<noteq> None \<and>
           rendered draw_image canvas_width canvas_height (the (decode u)) = solid canvas_width canvas_height (colour u)"
    and "\<forall>u \<in> set urls. length (colour u) = 4" and "\<forall>u \<in> set urls. \<not> tainted (the (decode u))"
  shows "composite_result True draw_image tainted decode urls =
         Inr (solid canvas_width canvas_height (composite_spec 4 (map colour urls)))"
proof -
  let ?imgs = "map (\<lambda>u. the (decode u)) urls"
  have "\<forall>u \<in> set urls. decode u \<noteq> None"
    using assms(4) by blast
  then have eq: "map decode urls = map Some ?imgs"
    by (induction urls) auto
  have trim: "js_trim (map decode urls) = map Some ?imgs"
    by (simp only: eq js_trim_map_Some)
  have "average_images draw_image canvas_width canvas_height (map Some ?imgs) (blank_canvas canvas_width canvas_height) =
        solid canvas_width canvas_height
          (map (\<lambda>c. word_of_nat (round_div (sample_sum (map colour urls) c) (length (map Some ?imgs)))) [0..<4])"
  proof (rule average_images_solid)
    show "length (js_present (map Some ?imgs)) \<le> 16843009"
      using assms(3) by (simp only: js_present_map_Some length_map)
    have "map (rendered draw_image canvas_width canvas_height) ?imgs = map (solid canvas_width canvas_height) (map colour urls)"
      using assms(4) by simp
    then show "map (rendered draw_image canvas_width canvas_height) (js_present (map Some ?imgs)) =
               map (solid canvas_width canvas_height) (map colour urls)"
      by (simp only: js_present_map_Some)
  qed (use assms in simp_all)
  moreover have "map (\<lambda>c. word_of_nat (round_div (sample_sum (map colour urls) c) (length urls))) [0..<4] =
                 composite_spec 4 (map colour urls)"
  proof -
    have "round_div (sample_sum (map colour urls) c) (length urls) \<le> 255" for c
      using sample_sum_le [of "map colour urls" c] by (intro round_div_le_255) simp
    then show ?thesis by (simp add: composite_spec_def clamped_u8_small)
  qed
  ultimately show ?thesis
    using assms(2,6) trim by (simp add: composite_result_def final_outcome_def list_ex_iff js_present_map_Some_fun)
qed

lemma composite_result_solid_colours_witness:
  "canvas_preserving draw_opaque \<and> [''g''] \<noteq> [] \<and> length [''g''] \<le> 16843009 \<and>
   (\<lambda>u. Some (solid 300 200 [0, 255, 0, 255])) ''g'' \<noteq> None \<and>
   rendered draw_opaque canvas_width canvas_height (the ((\<lambda>u. Some (solid 300 200 [0, 255, 0, 255])) ''g'')) =
      solid canvas_width canvas_height ((\<lambda>u. [0, 255, 0, 255]) ''g'') \<and>
   length ((\<lambda>u. [0, 255, 0, 255 :: u8]) ''g'') = 4 \<and>
   \<not> no_taint (the ((\<lambda>u. Some (solid 300 200 [0, 255, 0, 255 :: u8])) ''g'')) \<and>
   composite_result True draw_opaque no_taint (\<lambda>u. Some (solid 300 200 [0, 255, 0, 255])) [''g''] =
   Inr (solid canvas_width canvas_height (composite_spec 4 (map (\<lambda>u. [0, 255, 0, 255]) [''g''])))"
proof -
  have r: "rendered draw_opaque canvas_width canvas_height (solid 300 200 [0, 255, 0, 255]) =
           solid canvas_width canvas_height [0, 255, 0, 255]"
    by (simp add: rendered_draw_opaque canvas_width_def canvas_height_def)
  show ?thesis
    using composite_result_solid_colours [OF canvas_preserving_draw_opaque, of "[''g'']"
            "\<lambda>u. Some (solid 300 200 [0, 255, 0, 255])" "\<lambda>u. [0, 255, 0, 255]" no_taint] r
    by (simp add: canvas_preserving_draw_opaque)
qed

text \<open>C6. Spec section 8, concrete scenario: pure red and pure blue flags give
  \<open>(128, 0, 128, 255)\<close> at every pixel (\<open>255 / 2 = 127.5\<close> rounds up).\<close>

theorem composite_result_red_blue:
  "composite_result True draw_opaque no_taint
     (\<lambda>u. if u = ''red'' then Some (solid 300 200 [255, 0, 0, 255])
          else if u = ''blue'' then Some (solid 300 200 [0, 0, 255, 255]) else None)
     [''red'', ''blue''] = Inr (solid 300 200 [128, 0, 128, 255])"
proof -
  let ?red = "solid 300 200 [255, 0, 0, 255]" and ?blue = "solid 300 200 [0, 0, 255, 255]"
  have "average_images draw_opaque 300 200 [Some ?red, Some ?blue] (blank_canvas 300 200) =
        solid 300 200 (map (\<lambda>c. word_of_nat (round_div (sample_sum [[255, 0, 0, 255], [0, 0, 255, 255]] c)
                                  (length [Some ?red, Some ?blue]))) [0..<4])"
    by (rule average_images_solid) (simp_all add: canvas_preserving_draw_opaque rendered_draw_opaque)
  then show ?thesis
    by (simp add: composite_result_def final_outcome_def canvas_width_def canvas_height_def js_trim_def
                  sample_sum_def round_div_def upt_rec)
qed

text \<open>C7. Spec section 8: a single source that decodes comes back unchanged (as
  drawn on the canvas).\<close>

theorem composite_result_single:
  assumes "canvas_preserving draw_image" and "decode u = Some img" and "\<not> tainted img"
  shows "composite_result True draw_image tainted decode [u] = Inr (rendered draw_image canvas_width canvas_height img)"
  using assms by (simp add: composite_result_def final_outcome_def js_trim_def average_images_single)

lemma composite_result_single_witness:
  "canvas_preserving draw_opaque \<and> (\<lambda>u. Some (solid 300 200 [0, 255, 0, 255])) ''green'' = Some (solid 300 200 [0, 255, 0, 255]) \<and>
   \<not> no_taint (solid 300 200 [0, 255, 0, 255 :: u8]) \<and>
   composite_result True draw_opaque no_taint (\<lambda>u. Some (solid 300 200 [0, 255, 0, 255])) [''green''] =
   Inr (solid 300 200 [0, 255, 0, 255])"
  using composite_result_single [OF canvas_preserving_draw_opaque, of "\<lambda>u. Some (solid 300 200 [0, 255, 0, 255])"
          "''green''" "solid 300 200 [0, 255, 0, 255]" no_taint]
  by (simp add: canvas_preserving_draw_opaque rendered_draw_opaque canvas_width_def canvas_height_def)

text \<open>C8. The error outcomes of the promise, in every arrival order of the
  events: without a canvas context the call rejects first, whatever the input;
  with no URL it rejects with "No images to process"; and the handlers reject it
  with "All images failed to load" exactly when there are URLs and none of them
  decodes.\<close>

theorem calculate_average_pixels_errors:
  assumes "distinct order" and "set order = {0..<length urls}"
  shows "calculate_average_pixels False draw_image tainted decode urls order = Some (Inl CanvasContextUnavailable) \<and>
         calculate_average_pixels True draw_image tainted decode [] order = Some (Inl NoImagesToProcess) \<and>
         (calculate_average_pixels True draw_image tainted decode urls order = Some (Inl AllImagesFailed) \<longleftrightarrow>
            urls \<noteq> [] \<and> (\<forall>u \<in> set urls. decode u = None))"
proof (cases "urls = []")
  case True
  then show ?thesis by (simp add: calculate_average_pixels_def)
next
  case False
  have "final_outcome draw_image tainted (js_trim (map decode urls)) = Inl AllImagesFailed \<longleftrightarrow>
        (\<forall>u \<in> set urls. decode u = None)"
    by (simp add: final_outcome_def js_trim_eq_Nil_iff)
  with promise_after_all_events [OF assms False, where draw_image = draw_image and tainted = tainted
         and decode = decode] False
  show ?thesis by (simp add: calculate_average_pixels_def)
qed

lemma calculate_average_pixels_errors_witness:
  "distinct [0 :: nat] \<and> set [0 :: nat] = {0..<length [''a'']} \<and>
   calculate_average_pixels False draw_opaque no_taint (\<lambda>u. None :: raster option) [''a''] [0] =
     Some (Inl CanvasContextUnavailable) \<and>
   calculate_average_pixels True draw_opaque no_taint (\<lambda>u. None :: raster option) [] [0] =
     Some (Inl NoImagesToProcess) \<and>
   calculate_average_pixels True draw_opaque no_taint (\<lambda>u. None :: raster option) [''a''] [0] =
     Some (Inl AllImagesFailed)"
  using calculate_average_pixels_errors [of "[0]" "[''a'']" draw_opaque no_taint "\<lambda>u. None :: raster option"]
  by (simp add: atLeastLessThan_def lessThan_def)


text \<open>C27. Whatever events arrive, in whatever order and however many, a
  resolved promise carries a raster of the canvas's size: 300 x 200 pixels of
  four samples each, the size \<open>new ImageData(avgData, width, height)\<close> requires.\<close>

theorem calculate_average_pixels_raster_size:
  assumes "calculate_average_pixels has_context draw_image tainted decode urls order = Some (Inr r)"
  shows "length r = canvas_width * canvas_height * 4"
proof -
  have "promise_raster_ok (initial_loader :: 'img loader)"
    by (simp add: promise_raster_ok_def initial_loader_def)
  then have "promise_raster_ok (fold (on_event draw_image tainted (length urls)) (load_events decode urls order) initial_loader)"
    by (rule fold_raster_ok)
  with assms show ?thesis
    by (auto simp: calculate_average_pixels_def promise_raster_ok_def split: if_splits)
qed

lemma calculate_average_pixels_raster_size_witness:
  "calculate_average_pixels True draw_opaque no_taint (\<lambda>u. Some [1, 2, 3, 4 :: u8]) [''a''] [0] =
     Some (Inr (average_images draw_opaque canvas_width canvas_height [Some [1, 2, 3, 4]]
                 (blank_canvas canvas_width canvas_height))) \<and>
   length (average_images draw_opaque canvas_width canvas_height [Some [1, 2, 3, 4 :: u8]]
            (blank_canvas canvas_width canvas_height)) = canvas_width * canvas_height * 4"
proof -
  have c: "calculate_average_pixels True draw_opaque no_taint (\<lambda>u. Some [1, 2, 3, 4 :: u8]) [''a''] [0] =
     Some (Inr (average_images draw_opaque canvas_width canvas_height [Some [1, 2, 3, 4]]
                 (blank_canvas canvas_width canvas_height)))"
    by (simp add: calculate_average_pixels_def load_events_def load_event_def initial_loader_def
                  on_load_def js_assign_def process_images_def settle_def Let_def)
  show ?thesis using c calculate_average_pixels_raster_size [OF c] by simp
qed

text \<open>C37. The error path of the processing block: if one loaded image makes
  the canvas unreadable, \<open>getImageData\<close> throws inside the \<open>try\<close>, the
  \<open>catch\<close> rejects, and the whole call fails, whatever the other sources are
  and in whatever order the events arrive. The images that did decode are not
  averaged.\<close>

theorem calculate_average_pixels_read_back_failure:
  assumes "distinct order" and "set order = {0..<length urls}"
    and "u \<in> set urls" and "decode u = Some img" and "tainted img"
  shows "calculate_average_pixels True draw_image tainted decode urls order = Some (Inl ReadBackFailed)"
proof -
  have ne: "urls \<noteq> []" using assms(3) by auto
  have "Some img \<in> set (map decode urls)"
    using assms(3,4) by (metis image_eqI list.set_map)
  then have present: "img \<in> set (js_present (js_trim (map decode urls)))"
    by (simp add: set_js_present)
  then have "js_trim (map decode urls) \<noteq> []" by (auto simp del: js_present_js_trim)
  with present assms(5) have "final_outcome draw_image tainted (js_trim (map decode urls)) = Inl ReadBackFailed"
    by (auto simp: final_outcome_def list_ex_iff)
  with promise_after_all_events [OF assms(1,2) ne, where draw_image = draw_image and tainted = tainted and decode = decode] ne
  show ?thesis
    by (simp add: calculate_average_pixels_def)
qed

lemma calculate_average_pixels_read_back_failure_witness:
  "distinct [1, 0 :: nat] \<and> set [1, 0 :: nat] = {0..<length [''a'', ''b'']} \<and> ''b'' \<in> set [''a'', ''b''] \<and>
   (\<lambda>u. if u = ''a'' then Some [1, 2, 3, 4] else Some [9, 9, 9, 9 :: u8]) ''b'' = Some [9, 9, 9, 9] \<and>
   (\<lambda>img. img = [9, 9, 9, 9 :: u8]) [9, 9, 9, 9] \<and>
   calculate_average_pixels True draw_opaque (\<lambda>img. img = [9, 9, 9, 9 :: u8])
     (\<lambda>u. if u = ''a'' then Some [1, 2, 3, 4] else Some [9, 9, 9, 9 :: u8]) [''a'', ''b''] [1, 0] =
   Some (Inl ReadBackFailed)"
  using calculate_average_pixels_read_back_failure [of "[1, 0]" "[''a'', ''b'']" "''b''"
          "\<lambda>u. if u = ''a'' then Some [1, 2, 3, 4] else Some [9, 9, 9, 9 :: u8]" "[9, 9, 9, 9]"
          "\<lambda>img. img = [9, 9, 9, 9 :: u8]" draw_opaque]
  by (auto simp flip: set_upt)

end
