(* ===== verification/CombinedView.thy ===== *)
theory CombinedView
  imports Loader
begin

text \<open>
  The React component \<open>CombinedFlag\<close> (src/src/components/CombinedFlag.tsx,
  lines 7--11 and 152--242) around \<open>calculateAveragePixels\<close>: its three state
  hooks, the effect that runs whenever the \<open>selectedCountries\<close> prop changes,
  the \<open>then\<close>/\<open>catch\<close> continuations of each call, and the render function.
  Calls that were started and have not settled are the \<open>pending_requests\<close>;
  each carries a request number (a ghost counter: the code keeps none) so that
  properties can speak of the newest one. A call settles with the value the
  Loader theory computes for it (\<open>composite_result\<close>, the value of
  \<open>calculate_average_pixels\<close> under every arrival order of its image events).
  Pending calls settle in any order, interleaved with prop changes: the steps
  form an inductive relation.
\<close>

section \<open>Definitions\<close>

text \<open>\<open>new URL(`../assets/flags/${code}.svg`, import.meta.url).href\<close>: resolving
  against the module's base URL is a fixed prefix and is left out.\<close>

definition flag_url :: "string \<Rightarrow> string" where
  "flag_url code = ''../assets/flags/'' @ code @ ''.svg''"

record flag_view =
  selected_countries :: "string list"
  combined_flag_url :: "raster option"
  is_loading :: bool
  error_text :: string
  pending_requests :: "(nat \<times> string list) list"
  next_request_id :: nat

text \<open>First render: \<open>useState('')\<close>, \<open>useState(false)\<close>, \<open>useState('')\<close>.
  \<open>combinedFlagUrl\<close> is \<open>None\<close> for the empty string and otherwise the raster
  its data URL encodes.\<close>

definition initial_view :: "string list \<Rightarrow> flag_view" where
  "initial_view sel =
     \<lparr>selected_countries = sel, combined_flag_url = None, is_loading = False, error_text = [],
      pending_requests = [], next_request_id = 0\<rparr>"

text \<open>The effect of lines 153--177, run after a render with a new
  \<open>selectedCountries\<close> array: clear the URL and return on an empty selection,
  otherwise set the loading flag, clear the error and start a call.\<close>

definition selection_effect :: "flag_view \<Rightarrow> flag_view" where
  "selection_effect st =
     (if selected_countries st = [] then st\<lparr>combined_flag_url := None\<rparr>
      else st\<lparr>is_loading := True, error_text := [],
              pending_requests := pending_requests st @
                 [(next_request_id st, map flag_url (selected_countries st))],
              next_request_id := Suc (next_request_id st)\<rparr>)"

definition props_change :: "string list \<Rightarrow> flag_view \<Rightarrow> flag_view" where
  "props_change sel st = selection_effect (st\<lparr>selected_countries := sel\<rparr>)"

text \<open>\<open>.then(url => { setCombinedFlagUrl(url); setLoading(false) })\<close> and
  \<open>.catch(err => { setError('Failed to generate combined flag'); setLoading(false) })\<close>.\<close>

definition failure_message :: string where
  "failure_message = ''Failed to generate combined flag''"

definition on_settled :: "calc_error + raster \<Rightarrow> flag_view \<Rightarrow> flag_view" where
  "on_settled r st =
     (case r of
        Inr url \<Rightarrow> st\<lparr>combined_flag_url := Some url, is_loading := False\<rparr>
      | Inl _ \<Rightarrow> st\<lparr>error_text := failure_message, is_loading := False\<rparr>)"

text \<open>The pending call at position \<open>i\<close> settles; its continuation runs.\<close>

definition settle_request ::
  "bool \<Rightarrow> ('img \<Rightarrow> raster \<Rightarrow> raster) \<Rightarrow> ('img \<Rightarrow> bool) \<Rightarrow> (string \<Rightarrow> 'img option) \<Rightarrow> nat \<Rightarrow> flag_view \<Rightarrow> flag_view" where
  "settle_request has_context draw_image tainted decode i st =
     (let (_, urls) = pending_requests st ! i
      in on_settled (composite_result has_context draw_image tainted decode urls)
           (st\<lparr>pending_requests := take i (pending_requests st) @ drop (Suc i) (pending_requests st)\<rparr>))"

text \<open>What the component shows, in the order of the early returns of lines
  179--242.\<close>

datatype flag_panel =
    NoFlagsSelected              \<comment> \<open>"No flags select for mixing"\<close>
  | Generating nat               \<comment> \<open>"Generating combined flag...", "Processing n countries"\<close>
  | ErrorPanel string            \<comment> \<open>"Error: ..."\<close>
  | CombinedImage raster nat     \<comment> \<open>the \<open>img\<close>, "n countries selected"\<close>
  | NoCombinedFlag nat           \<comment> \<open>"No combined flag available"\<close>

definition render :: "flag_view \<Rightarrow> flag_panel" where
  "render st =
     (let n = length (selected_countries st) in
      if selected_countries st = [] then NoFlagsSelected
      else if is_loading st then Generating n
      else if error_text st \<noteq> [] then ErrorPanel (error_text st)
      else case combined_flag_url st of
             Some url \<Rightarrow> CombinedImage url n
           | None \<Rightarrow> NoCombinedFlag n)"

inductive view_step ::
  "bool \<Rightarrow> ('img \<Rightarrow> raster \<Rightarrow> raster) \<Rightarrow> ('img \<Rightarrow> bool) \<Rightarrow> (string \<Rightarrow> 'img option) \<Rightarrow> flag_view \<Rightarrow> flag_view \<Rightarrow> bool"
  for has_context draw_image tainted decode where
  select: "view_step has_context draw_image tainted decode st (props_change sel st)"
| settle: "i < length (pending_requests st) \<Longrightarrow>
     view_step has_context draw_image tainted decode st (settle_request has_context draw_image tainted decode i st)"

text \<open>Mounting runs the effect once for the initial prop.\<close>

inductive view_reachable ::
  "bool \<Rightarrow> ('img \<Rightarrow> raster \<Rightarrow> raster) \<Rightarrow> ('img \<Rightarrow> bool) \<Rightarrow> (string \<Rightarrow> 'img option) \<Rightarrow> flag_view \<Rightarrow> bool"
  for has_context draw_image tainted decode where
  mount: "view_reachable has_context draw_image tainted decode (selection_effect (initial_view sel))"
| step: "view_reachable has_context draw_image tainted decode st \<Longrightarrow> view_step has_context draw_image tainted decode st st' \<Longrightarrow>
     view_reachable has_context draw_image tainted decode st'"

inductive_cases view_step_cases: "view_step has_context draw_image tainted decode st st'"

definition view_inv :: "flag_view \<Rightarrow> bool" where
  "view_inv st \<longleftrightarrow>
     (is_loading st \<longrightarrow> pending_requests st \<noteq> []) \<and>
     (error_text st = [] \<or> error_text st = failure_message) \<and>
     sorted_wrt (<) (map fst (pending_requests st) @ [next_request_id st])"

section \<open>Lemmas\<close>

lemma props_change_empty [simp]:
  "props_change [] st = st\<lparr>selected_countries := [], combined_flag_url := None\<rparr>"
  by (simp add: props_change_def selection_effect_def)

lemma props_change_nonempty:
  "sel \<noteq> [] \<Longrightarrow> props_change sel st =
     st\<lparr>selected_countries := sel, is_loading := True, error_text := [],
        pending_requests := pending_requests st @ [(next_request_id st, map flag_url sel)],
        next_request_id := Suc (next_request_id st)\<rparr>"
  by (simp add: props_change_def selection_effect_def)

lemma settle_request_fields:
  "pending_requests (settle_request hc draw_image tainted decode i st) =
     take i (pending_requests st) @ drop (Suc i) (pending_requests st) \<and>
   selected_countries (settle_request hc draw_image tainted decode i st) = selected_countries st \<and>
   next_request_id (settle_request hc draw_image tainted decode i st) = next_request_id st \<and>
   \<not> is_loading (settle_request hc draw_image tainted decode i st) \<and>
   (error_text (settle_request hc draw_image tainted decode i st) = error_text st \<or>
    error_text (settle_request hc draw_image tainted decode i st) = failure_message)"
  by (simp add: settle_request_def on_settled_def split_beta split: sum.split)

lemma sorted_wrt_remove_nth:
  assumes "sorted_wrt r zs"
  shows "sorted_wrt r (take i zs @ drop (Suc i) zs)"
proof (cases "i < length zs")
  case False
  with assms show ?thesis by simp
next
  case True
  then have "zs = take i zs @ zs ! i # drop (Suc i) zs"
    by (simp add: Cons_nth_drop_Suc)
  with assms have "sorted_wrt r (take i zs @ zs ! i # drop (Suc i) zs)"
    by simp
  then show ?thesis
    by (auto simp: sorted_wrt_append)
qed

lemma initial_view_inv: "view_inv (initial_view sel)"
  by (simp add: view_inv_def initial_view_def)

lemma selection_effect_initial: "selection_effect (initial_view sel) = props_change sel (initial_view sel)"
  by (simp add: props_change_def initial_view_def)

lemma props_change_inv: "view_inv st \<Longrightarrow> view_inv (props_change sel st)"
proof (cases "sel = []")
  case True
  then show "view_inv st \<Longrightarrow> view_inv (props_change sel st)"
    by (simp add: view_inv_def)
next
  case False
  assume inv: "view_inv st"
  then have "\<forall>x \<in> set (map fst (pending_requests st)). x < next_request_id st"
    by (simp add: view_inv_def sorted_wrt_append)
  with inv False show ?thesis
    by (auto simp: view_inv_def props_change_nonempty sorted_wrt_append)
qed

lemma settle_request_inv:
  assumes "view_inv st" and "i < length (pending_requests st)"
  shows "view_inv (settle_request hc draw_image tainted decode i st)"
proof -
  let ?p = "pending_requests st" and ?n = "next_request_id st"
  have "map fst (take i ?p @ drop (Suc i) ?p) @ [?n] =
        take i (map fst ?p @ [?n]) @ drop (Suc i) (map fst ?p @ [?n])"
    using assms(2) by (simp add: take_map drop_map)
  moreover have "sorted_wrt (<) (map fst ?p @ [?n])"
    using assms(1) by (simp add: view_inv_def)
  ultimately have "sorted_wrt (<) (map fst (take i ?p @ drop (Suc i) ?p) @ [?n])"
    by (metis sorted_wrt_remove_nth)
  with assms(1) settle_request_fields [of hc draw_image tainted decode i st] show ?thesis
    by (auto simp: view_inv_def)
qed

lemma view_step_inv: "view_step hc draw_image tainted decode st st' \<Longrightarrow> view_inv st \<Longrightarrow> view_inv st'"
  by (induction rule: view_step.induct) (simp_all add: props_change_inv settle_request_inv)

lemma view_reachable_inv: "view_reachable hc draw_image tainted decode st \<Longrightarrow> view_inv st"
proof (induction rule: view_reachable.induct)
  case (mount sel)
  show ?case
    by (simp add: selection_effect_initial props_change_inv initial_view_inv)
next
  case (step st st')
  then show ?case by (blast intro: view_step_inv)
qed


lemma settle_request_first:
  "pending_requests st = (k, urls) # rest \<Longrightarrow>
   settle_request hc draw_image tainted decode 0 st =
     on_settled (composite_result hc draw_image tainted decode urls) (st\<lparr>pending_requests := rest\<rparr>)"
  by (simp add: settle_request_def)

section \<open>Properties\<close>

text \<open>C13. In every reachable state of the component, the loading indicator is
  on only while some call is pending, and the error text is empty or the one
  message the code sets.\<close>

theorem view_reachable_loading_pending:
  assumes "view_reachable has_context draw_image tainted decode st"
  shows "(is_loading st \<longrightarrow> pending_requests st \<noteq> []) \<and>
         (error_text st = [] \<or> error_text st = failure_message)"
  using view_reachable_inv [OF assms] by (simp add: view_inv_def)

lemma view_reachable_loading_pending_witness:
  "view_reachable True draw_opaque no_taint (\<lambda>u. None) (selection_effect (initial_view [''fr''])) \<and>
   is_loading (selection_effect (initial_view [''fr''])) \<and>
   pending_requests (selection_effect (initial_view [''fr''])) \<noteq> [] \<and>
   error_text (selection_effect (initial_view [''fr''])) = []"
proof -
  have r: "view_reachable True draw_opaque no_taint (\<lambda>u. None) (selection_effect (initial_view [''fr'']))"
    by (rule view_reachable.mount)
  show ?thesis
    using r view_reachable_loading_pending [OF r]
    by (simp add: selection_effect_def initial_view_def)
qed

text \<open>C14. A stale result is shown: the code never discards the outcome of a
  call made for an earlier selection. If the selection changes from \<open>A\<close> to
  \<open>B\<close> and the call for \<open>A\<close> settles first, the component shows \<open>A\<close>'s
  composite, labelled with \<open>B\<close>'s count, and stops the loading indicator while
  the call for \<open>B\<close> is still pending (spec section 5 requires it discarded).\<close>

theorem stale_result_shown:
  assumes "view_reachable has_context draw_image tainted decode st" and "pending_requests st = []"
    and "A \<noteq> []" and "B \<noteq> []"
    and "composite_result has_context draw_image tainted decode (map flag_url A) = Inr r"
  shows "\<exists>st'. view_reachable has_context draw_image tainted decode st' \<and> selected_countries st' = B \<and>
           map snd (pending_requests st') = [map flag_url B] \<and> render st' = CombinedImage r (length B)"
proof -
  let ?st1 = "props_change A st"
  let ?st2 = "props_change B ?st1"
  let ?st3 = "settle_request has_context draw_image tainted decode 0 ?st2"
  have "view_reachable has_context draw_image tainted decode ?st3"
  proof (rule view_reachable.step)
    show "view_reachable has_context draw_image tainted decode ?st2"
      by (rule view_reachable.step [OF view_reachable.step [OF assms(1) view_step.select] view_step.select])
    show "view_step has_context draw_image tainted decode ?st2 ?st3"
      using assms(3,4) by (intro view_step.settle) (simp add: props_change_nonempty)
  qed
  moreover have "pending_requests ?st2 =
      [(next_request_id st, map flag_url A), (Suc (next_request_id st), map flag_url B)]"
    using assms(2-4) by (simp add: props_change_nonempty)
  then have "?st3 = on_settled (Inr r) (?st2\<lparr>pending_requests := [(Suc (next_request_id st), map flag_url B)]\<rparr>)"
    using assms(5) by (simp add: settle_request_first)
  ultimately show ?thesis
    using assms(3,4) by (intro exI [of _ ?st3]) (simp add: props_change_nonempty on_settled_def render_def)
qed


lemma stale_result_shown_witness:
  "view_reachable True draw_opaque no_taint (\<lambda>u. Some (blank_canvas 300 200)) (selection_effect (initial_view [])) \<and>
   pending_requests (selection_effect (initial_view [])) = [] \<and> [''fr''] \<noteq> [] \<and> [''de''] \<noteq> [] \<and>
   composite_result True draw_opaque no_taint (\<lambda>u. Some (blank_canvas 300 200)) (map flag_url [''fr'']) =
     Inr (average_images draw_opaque 300 200 [Some (blank_canvas 300 200)] (blank_canvas 300 200)) \<and>
   (\<exists>st'. view_reachable True draw_opaque no_taint (\<lambda>u. Some (blank_canvas 300 200)) st' \<and>
      selected_countries st' = [''de''] \<and> map snd (pending_requests st') = [map flag_url [''de'']] \<and>
      render st' = CombinedImage (average_images draw_opaque 300 200 [Some (blank_canvas 300 200)]
                                    (blank_canvas 300 200)) (length [''de'']))"
proof -
  have r: "view_reachable True draw_opaque no_taint (\<lambda>u. Some (blank_canvas 300 200)) (selection_effect (initial_view []))"
    by (rule view_reachable.mount)
  have c: "composite_result True draw_opaque no_taint (\<lambda>u. Some (blank_canvas 300 200)) (map flag_url [''fr'']) =
     Inr (average_images draw_opaque 300 200 [Some (blank_canvas 300 200)] (blank_canvas 300 200))"
    by (simp add: composite_result_def final_outcome_def js_trim_def canvas_width_def canvas_height_def)
  have p: "pending_requests (selection_effect (initial_view [])) = []"
    by (simp add: selection_effect_def initial_view_def)
  show ?thesis
    using r c p stale_result_shown [OF r p _ _ c, of "[''de'']"] by simp
qed

text \<open>C15. A stale failure hides a fresh result: if the call for the earlier
  selection \<open>A\<close> fails after the selection changed to \<open>B\<close>, the error it sets
  is never cleared by the success of the call for \<open>B\<close>; the component keeps
  showing the error although \<open>B\<close>'s composite is stored and no call is
  pending.\<close>

theorem stale_failure_masks_result:
  assumes "view_reachable has_context draw_image tainted decode st" and "pending_requests st = []"
    and "A \<noteq> []" and "B \<noteq> []"
    and "composite_result has_context draw_image tainted decode (map flag_url A) = Inl e"
    and "composite_result has_context draw_image tainted decode (map flag_url B) = Inr r"
  shows "\<exists>st'. view_reachable has_context draw_image tainted decode st' \<and> selected_countries st' = B \<and>
           pending_requests st' = [] \<and> combined_flag_url st' = Some r \<and>
           render st' = ErrorPanel failure_message"
proof -
  let ?st2 = "props_change B (props_change A st)"
  let ?st3 = "settle_request has_context draw_image tainted decode 0 ?st2"
  let ?st4 = "settle_request has_context draw_image tainted decode 0 ?st3"
  have p2: "pending_requests ?st2 =
      [(next_request_id st, map flag_url A), (Suc (next_request_id st), map flag_url B)]"
    using assms(2-4) by (simp add: props_change_nonempty)
  have st3: "?st3 = on_settled (Inl e) (?st2\<lparr>pending_requests := [(Suc (next_request_id st), map flag_url B)]\<rparr>)"
    using p2 assms(5) by (simp add: settle_request_first)
  have st4: "?st4 = on_settled (Inr r) (?st3\<lparr>pending_requests := []\<rparr>)"
    using st3 assms(6) by (simp add: settle_request_first on_settled_def)
  have r2: "view_reachable has_context draw_image tainted decode ?st2"
    by (rule view_reachable.step [OF view_reachable.step [OF assms(1) view_step.select] view_step.select])
  have r3: "view_reachable has_context draw_image tainted decode ?st3"
    by (rule view_reachable.step [OF r2 view_step.settle]) (simp add: p2)
  have p3: "pending_requests ?st3 = [(Suc (next_request_id st), map flag_url B)]"
    using st3 by (simp add: on_settled_def)
  have "view_reachable has_context draw_image tainted decode ?st4"
    by (rule view_reachable.step [OF r3 view_step.settle]) (simp add: p3)
  moreover have "selected_countries ?st4 = B \<and> pending_requests ?st4 = [] \<and>
      combined_flag_url ?st4 = Some r \<and> \<not> is_loading ?st4 \<and> error_text ?st4 = failure_message"
    using assms(3,4) st3 st4 by (simp add: props_change_nonempty on_settled_def)
  moreover have "failure_message \<noteq> []"
    by (simp add: failure_message_def)
  ultimately show ?thesis
    using assms(4) by (intro exI [of _ ?st4]) (simp add: render_def)
qed

lemma stale_failure_masks_result_witness:
  "view_reachable True draw_opaque no_taint (\<lambda>u. if u = flag_url ''de'' then Some (blank_canvas 300 200) else None)
     (selection_effect (initial_view [])) \<and>
   pending_requests (selection_effect (initial_view [])) = [] \<and> [''fr''] \<noteq> [] \<and> [''de''] \<noteq> [] \<and>
   composite_result True draw_opaque no_taint (\<lambda>u. if u = flag_url ''de'' then Some (blank_canvas 300 200) else None)
     (map flag_url [''fr'']) = Inl AllImagesFailed \<and>
   composite_result True draw_opaque no_taint (\<lambda>u. if u = flag_url ''de'' then Some (blank_canvas 300 200) else None)
     (map flag_url [''de'']) =
     Inr (average_images draw_opaque 300 200 [Some (blank_canvas 300 200)] (blank_canvas 300 200)) \<and>
   (\<exists>st'. view_reachable True draw_opaque no_taint (\<lambda>u. if u = flag_url ''de'' then Some (blank_canvas 300 200) else None) st' \<and>
      selected_countries st' = [''de''] \<and> pending_requests st' = [] \<and>
      combined_flag_url st' = Some (average_images draw_opaque 300 200 [Some (blank_canvas 300 200)] (blank_canvas 300 200)) \<and>
      render st' = ErrorPanel failure_message)"
proof -
  let ?dec = "\<lambda>u. if u = flag_url ''de'' then Some (blank_canvas 300 200) else None"
  have r: "view_reachable True draw_opaque no_taint ?dec (selection_effect (initial_view []))"
    by (rule view_reachable.mount)
  have p: "pending_requests (selection_effect (initial_view [])) = []"
    by (simp add: selection_effect_def initial_view_def)
  have a: "composite_result True draw_opaque no_taint ?dec (map flag_url [''fr'']) = Inl AllImagesFailed"
    by (simp add: composite_result_def final_outcome_def js_trim_def flag_url_def)
  have b: "composite_result True draw_opaque no_taint ?dec (map flag_url [''de'']) =
     Inr (average_images draw_opaque 300 200 [Some (blank_canvas 300 200)] (blank_canvas 300 200))"
    by (simp add: composite_result_def final_outcome_def js_trim_def canvas_width_def canvas_height_def)
  show ?thesis
    using r p a b stale_failure_masks_result [OF r p _ _ a b] by simp
qed

text \<open>C16. Without interleaving, the component shows what the call for the
  current selection produced: after a change to a non-empty selection with no
  other call pending, the call's success shows its composite and its failure
  shows the error message.\<close>

theorem settle_newest_shows_outcome:
  assumes "pending_requests st = []" and "sel \<noteq> []"
  shows "render (settle_request has_context draw_image tainted decode 0 (props_change sel st)) =
         (case composite_result has_context draw_image tainted decode (map flag_url sel) of
            Inr r \<Rightarrow> CombinedImage r (length sel)
          | Inl _ \<Rightarrow> ErrorPanel failure_message)"
  using assms
  by (simp add: props_change_nonempty settle_request_first on_settled_def render_def failure_message_def
           split: sum.split)

lemma settle_newest_shows_outcome_witness:
  "pending_requests (initial_view []) = [] \<and> [''fr''] \<noteq> [] \<and>
   render (settle_request True draw_opaque no_taint (\<lambda>u. None :: raster option) 0 (props_change [''fr''] (initial_view []))) =
   ErrorPanel failure_message"
proof -
  have p: "pending_requests (initial_view []) = []" by (simp add: initial_view_def)
  have "composite_result True draw_opaque no_taint (\<lambda>u. None :: raster option) (map flag_url [''fr'']) = Inl AllImagesFailed"
    by (simp add: composite_result_def final_outcome_def js_trim_def)
  then show ?thesis
    using p settle_newest_shows_outcome [OF p, of "[''fr'']" True draw_opaque no_taint "\<lambda>u. None :: raster option"] by simp
qed

end
