(* ===== verification/Selection.thy ===== *)
theory Selection
  imports Prelude "HOL-Library.Multiset"
begin

text \<open>
  Selection bookkeeping: the handlers of \<open>App\<close> (src/src/App.tsx) that change
  \<open>selectedCountries\<close>, the helpers that read \<open>countriesData\<close>, and the
  \<open>CountryList\<close> component (src/src/components/CountryList.tsx): its expanded
  continents, the enabled state of its buttons, and the checkbox handler. The
  country table \<open>countriesData\<close> lives in src/data/countries, outside the
  sources; it is a parameter \<open>data\<close>, a list of continents with their countries,
  of the shape the code reads (\<open>name\<close>, \<open>countries\<close>, \<open>code\<close>). \<open>Math.random\<close>
  in \<open>getRandomCountries\<close> is a parameter too: the list \<open>shuffled\<close> that the
  random sort produced, some permutation of all codes. A user action is one
  \<open>ui_event\<close>; \<open>ui_step\<close> applies its handler. React state updates are
  sequential here: the render-time \<open>selectedCountries\<close> and the \<open>prev\<close> of the
  updater are the same list.
\<close>

section \<open>Definitions\<close>

record country =
  country_code :: string
  country_name :: string

record continent =
  continent_name :: string
  continent_countries :: "country list"

definition continent_codes :: "continent \<Rightarrow> string list" where
  "continent_codes c = map country_code (continent_countries c)"

definition get_all_country_codes :: "continent list \<Rightarrow> string list" where
  "get_all_country_codes data = concat (map continent_codes data)"

text \<open>\<open>shuffled.slice(0, count)\<close> (here \<open>n\<close>), where \<open>shuffled\<close> is the randomly sorted copy
  of all codes.\<close>

definition get_random_countries :: "string list \<Rightarrow> nat \<Rightarrow> string list" where
  "get_random_countries shuffled n = take n shuffled"

fun get_country_name_from_code :: "continent list \<Rightarrow> string \<Rightarrow> string" where
  "get_country_name_from_code [] code = code"
| "get_country_name_from_code (c # cs) code =
     (case find (\<lambda>x. country_code x = code) (continent_countries c) of
        Some x \<Rightarrow> country_name x
      | None \<Rightarrow> get_country_name_from_code cs code)"

definition find_continent :: "continent list \<Rightarrow> string \<Rightarrow> continent option" where
  "find_continent data name = find (\<lambda>c. continent_name c = name) data"

definition handle_country_select :: "string \<Rightarrow> bool \<Rightarrow> string list \<Rightarrow> string list" where
  "handle_country_select code is_selected sel =
     (if is_selected then sel @ [code] else filter (\<lambda>x. x \<noteq> code) sel)"

definition handle_select_all_in_continent ::
  "continent list \<Rightarrow> string \<Rightarrow> bool \<Rightarrow> string list \<Rightarrow> string list" where
  "handle_select_all_in_continent data name is_selected sel =
     (case find_continent data name of
        None \<Rightarrow> sel
      | Some c \<Rightarrow>
          if is_selected then sel @ filter (\<lambda>code. code \<notin> set sel) (continent_codes c)
          else filter (\<lambda>code. code \<notin> set (continent_codes c)) sel)"

definition are_all_selected :: "continent list \<Rightarrow> string list \<Rightarrow> string \<Rightarrow> bool" where
  "are_all_selected data sel name =
     (case find_continent data name of
        None \<Rightarrow> False
      | Some c \<Rightarrow> list_all (\<lambda>x. country_code x \<in> set sel) (continent_countries c))"

definition are_none_selected :: "continent list \<Rightarrow> string list \<Rightarrow> string \<Rightarrow> bool" where
  "are_none_selected data sel name =
     (case find_continent data name of
        None \<Rightarrow> True
      | Some c \<Rightarrow> list_all (\<lambda>x. country_code x \<notin> set sel) (continent_countries c))"

text \<open>\<open>{...prev, [name]: !prev[name]}\<close>: a missing entry is \<open>undefined\<close>, so the
  first click expands.\<close>

definition toggle_continent :: "(string \<rightharpoonup> bool) \<Rightarrow> string \<Rightarrow> (string \<rightharpoonup> bool)" where
  "toggle_continent expanded name = expanded(name \<mapsto> \<not> (expanded name = Some True))"

record ui_state =
  selected :: "string list"
  countries_list_visible :: bool
  expanded_continents :: "string \<rightharpoonup> bool"

datatype ui_event =
    CheckboxClick string       \<comment> \<open>a country's checkbox \<open>onChange\<close>\<close>
  | SelectAllClick string      \<comment> \<open>"Select All" of a continent\<close>
  | DeselectAllClick string    \<comment> \<open>"Deselect All" of a continent\<close>
  | RandomClick "string list"  \<comment> \<open>"Random", with the shuffled codes\<close>
  | ToggleListClick            \<comment> \<open>"Hide"/"Show"\<close>
  | ContinentTitleClick string \<comment> \<open>a continent title\<close>

text \<open>The checkbox is controlled (\<open>checked = selectedCountries.includes(code)\<close>),
  so \<open>e.target.checked\<close> in \<open>onChange\<close> is the negation of the current state.
  A disabled button receives no click.\<close>

fun ui_step :: "continent list \<Rightarrow> ui_state \<Rightarrow> ui_event \<Rightarrow> ui_state" where
  "ui_step data st (CheckboxClick code) =
     st\<lparr>selected := handle_country_select code (code \<notin> set (selected st)) (selected st)\<rparr>"
| "ui_step data st (SelectAllClick name) =
     (if are_all_selected data (selected st) name then st
      else st\<lparr>selected := handle_select_all_in_continent data name True (selected st)\<rparr>)"
| "ui_step data st (DeselectAllClick name) =
     (if are_none_selected data (selected st) name then st
      else st\<lparr>selected := handle_select_all_in_continent data name False (selected st)\<rparr>)"
| "ui_step data st (RandomClick shuffled) = st\<lparr>selected := get_random_countries shuffled 2\<rparr>"
| "ui_step data st ToggleListClick = st\<lparr>countries_list_visible := \<not> countries_list_visible st\<rparr>"
| "ui_step data st (ContinentTitleClick name) =
     st\<lparr>expanded_continents := toggle_continent (expanded_continents st) name\<rparr>"

text \<open>First render of \<open>App\<close> and \<open>CountryList\<close>.\<close>

definition initial_ui :: "string list \<Rightarrow> ui_state" where
  "initial_ui shuffled =
     \<lparr>selected = get_random_countries shuffled 2, countries_list_visible = True,
      expanded_continents = Map.empty\<rparr>"

text \<open>The events the page can deliver: checkboxes exist only for the codes of
  the table, and the random sort permutes all codes.\<close>

fun event_ok :: "continent list \<Rightarrow> ui_event \<Rightarrow> bool" where
  "event_ok data (CheckboxClick code) = (code \<in> set (get_all_country_codes data))"
| "event_ok data (RandomClick shuffled) = (mset shuffled = mset (get_all_country_codes data))"
| "event_ok data _ = True"

inductive ui_reachable :: "continent list \<Rightarrow> ui_state \<Rightarrow> bool" for data where
  init: "mset shuffled = mset (get_all_country_codes data) \<Longrightarrow> ui_reachable data (initial_ui shuffled)"
| step: "ui_reachable data st \<Longrightarrow> event_ok data ev \<Longrightarrow> ui_reachable data (ui_step data st ev)"

definition ui_inv :: "continent list \<Rightarrow> ui_state \<Rightarrow> bool" where
  "ui_inv data st \<longleftrightarrow> distinct (selected st) \<and> set (selected st) \<subseteq> set (get_all_country_codes data)"

text \<open>A one-continent table for the witnesses.\<close>

definition europe :: continent where
  "europe = \<lparr>continent_name = ''Europe'',
     continent_countries = [\<lparr>country_code = ''fr'', country_name = ''France''\<rparr>,
                            \<lparr>country_code = ''de'', country_name = ''Germany''\<rparr>]\<rparr>"

section \<open>Lemmas\<close>

lemma find_continent_SomeD:
  "find_continent data name = Some c \<Longrightarrow> c \<in> set data \<and> continent_name c = name"
  by (auto simp: find_continent_def find_Some_iff)

lemma continent_codes_subset:
  "c \<in> set data \<Longrightarrow> set (continent_codes c) \<subseteq> set (get_all_country_codes data)"
  by (auto simp: get_all_country_codes_def)

lemma distinct_continent_codes:
  "distinct (get_all_country_codes data) \<Longrightarrow> c \<in> set data \<Longrightarrow> distinct (continent_codes c)"
  by (auto simp: get_all_country_codes_def distinct_concat_iff)

lemma find_append_list:
  "find P (xs @ ys) = (case find P xs of None \<Rightarrow> find P ys | Some x \<Rightarrow> Some x)"
  by (induction xs) auto

lemma set_select_all:
  "find_continent data name = Some c \<Longrightarrow>
   set (handle_select_all_in_continent data name True sel) = set sel \<union> set (continent_codes c)"
  by (auto simp: handle_select_all_in_continent_def)

lemma select_all_inv:
  assumes "distinct (get_all_country_codes data)" and "ui_inv data st"
  shows "ui_inv data (st\<lparr>selected := handle_select_all_in_continent data name True (selected st)\<rparr>)"
proof (cases "find_continent data name")
  case None
  with assms(2) show ?thesis by (simp add: handle_select_all_in_continent_def ui_inv_def)
next
  case (Some c)
  then have c: "c \<in> set data" by (simp add: find_continent_SomeD)
  with assms have "distinct (continent_codes c)" by (simp add: distinct_continent_codes)
  with assms(2) Some c show ?thesis
    using continent_codes_subset [OF c]
    by (auto simp: handle_select_all_in_continent_def ui_inv_def)
qed

lemma deselect_all_inv:
  "ui_inv data st \<Longrightarrow> ui_inv data (st\<lparr>selected := handle_select_all_in_continent data name False (selected st)\<rparr>)"
  by (auto simp: handle_select_all_in_continent_def ui_inv_def split: option.split)

lemma random_pick:
  assumes "mset shuffled = mset (get_all_country_codes data)" and "distinct (get_all_country_codes data)"
  shows "distinct (get_random_countries shuffled n) \<and>
         set (get_random_countries shuffled n) \<subseteq> set (get_all_country_codes data) \<and>
         length (get_random_countries shuffled n) = min n (length (get_all_country_codes data))"
proof -
  have "distinct shuffled" using assms mset_eq_imp_distinct_iff by blast
  moreover have "set shuffled = set (get_all_country_codes data)" using assms(1) by (rule mset_eq_setD)
  moreover have "length shuffled = length (get_all_country_codes data)" using assms(1) by (metis size_mset)
  ultimately show ?thesis
    by (auto simp: get_random_countries_def dest: in_set_takeD)
qed

lemma ui_step_inv:
  assumes "distinct (get_all_country_codes data)" and "event_ok data ev" and "ui_inv data st"
  shows "ui_inv data (ui_step data st ev)"
  using assms
proof (cases ev)
  case (CheckboxClick code)
  with assms show ?thesis by (auto simp: ui_inv_def handle_country_select_def)
next
  case (SelectAllClick name)
  with assms show ?thesis by (simp add: select_all_inv)
next
  case (DeselectAllClick name)
  with assms show ?thesis by (simp add: deselect_all_inv)
next
  case (RandomClick shuffled)
  with assms show ?thesis by (simp add: ui_inv_def random_pick)
qed (simp_all add: ui_inv_def)

lemma ui_reachable_inv:
  assumes "distinct (get_all_country_codes data)"
  shows "ui_reachable data st \<Longrightarrow> ui_inv data st"
proof (induction rule: ui_reachable.induct)
  case (init shuffled)
  then show ?case
    using random_pick [OF init assms] by (simp add: ui_inv_def initial_ui_def)
next
  case (step st ev)
  then show ?case using assms by (simp add: ui_step_inv)
qed


lemma europe_facts:
  "find_continent [europe] ''Europe'' = Some europe"
  "continent_codes europe = [''fr'', ''de'']"
  "get_all_country_codes [europe] = [''fr'', ''de'']"
  by (simp_all add: find_continent_def get_all_country_codes_def continent_codes_def europe_def)

section \<open>Properties\<close>

text \<open>C17. With a country table whose codes are distinct, every selection the
  page can reach holds each country at most once, and only codes of the table.\<close>

theorem ui_reachable_selection_distinct:
  assumes "distinct (get_all_country_codes data)" and "ui_reachable data st"
  shows "distinct (selected st) \<and> set (selected st) \<subseteq> set (get_all_country_codes data)"
  using ui_reachable_inv [OF assms] by (simp add: ui_inv_def)

lemma ui_reachable_selection_distinct_witness:
  "distinct (get_all_country_codes [europe]) \<and> ui_reachable [europe] (initial_ui [''de'', ''fr'']) \<and>
   selected (initial_ui [''de'', ''fr'']) = [''de'', ''fr''] \<and>
   distinct (selected (initial_ui [''de'', ''fr'']))"
proof -
  have d: "distinct (get_all_country_codes [europe])"
    by (simp add: europe_facts)
  have r: "ui_reachable [europe] (initial_ui [''de'', ''fr''])"
    by (rule ui_reachable.init) (simp add: europe_facts)
  show ?thesis
    using d r ui_reachable_selection_distinct [OF d r]
    by (simp add: initial_ui_def get_random_countries_def)
qed

text \<open>C18. "Select All" of a continent keeps the current selection as a
  prefix and appends exactly the continent's countries that were missing, each
  once (for a continent whose codes are distinct); afterwards the button is
  disabled (\<open>areAllSelected\<close>).\<close>

theorem select_all_selects_continent:
  assumes "find_continent data name = Some c" and "distinct (continent_codes c)"
  shows "are_all_selected data (handle_select_all_in_continent data name True sel) name \<and>
         take (length sel) (handle_select_all_in_continent data name True sel) = sel \<and>
         set (drop (length sel) (handle_select_all_in_continent data name True sel)) =
           set (continent_codes c) - set sel \<and>
         distinct (drop (length sel) (handle_select_all_in_continent data name True sel))"
proof -
  have h: "handle_select_all_in_continent data name True sel =
           sel @ filter (\<lambda>code. code \<notin> set sel) (continent_codes c)"
    using assms(1) by (simp add: handle_select_all_in_continent_def)
  have "are_all_selected data (handle_select_all_in_continent data name True sel) name"
    using assms(1) set_select_all [OF assms(1)]
    by (auto simp: are_all_selected_def continent_codes_def list_all_iff)
  with h assms(2) show ?thesis by auto
qed

lemma select_all_selects_continent_witness:
  "find_continent [europe] ''Europe'' = Some europe \<and> distinct (continent_codes europe) \<and>
   handle_select_all_in_continent [europe] ''Europe'' True [''it'', ''de''] = [''it'', ''de'', ''fr''] \<and>
   are_all_selected [europe] [''it'', ''de'', ''fr''] ''Europe''"
proof -
  note f = europe_facts(1)
  have d: "distinct (continent_codes europe)"
    by (simp add: europe_facts)
  have "handle_select_all_in_continent [europe] ''Europe'' True [''it'', ''de''] = [''it'', ''de'', ''fr'']"
    by (simp add: handle_select_all_in_continent_def europe_facts)
  then show ?thesis
    using f d select_all_selects_continent [OF f d, of "[''it'', ''de'']"] by simp
qed

text \<open>C19. "Deselect All" of a continent removes exactly its countries, keeps the
  order of the others, and afterwards the button is disabled
  (\<open>areNoneSelected\<close>).\<close>

theorem deselect_all_clears_continent:
  assumes "find_continent data name = Some c"
  shows "are_none_selected data (handle_select_all_in_continent data name False sel) name \<and>
         handle_select_all_in_continent data name False sel = filter (\<lambda>x. x \<notin> set (continent_codes c)) sel"
  using assms
  by (auto simp: are_none_selected_def handle_select_all_in_continent_def continent_codes_def list_all_iff)

lemma deselect_all_clears_continent_witness:
  "find_continent [europe] ''Europe'' = Some europe \<and>
   handle_select_all_in_continent [europe] ''Europe'' False [''fr'', ''it'', ''de''] = [''it''] \<and>
   are_none_selected [europe] [''it''] ''Europe''"
proof -
  note f = europe_facts(1)
  have h: "handle_select_all_in_continent [europe] ''Europe'' False [''fr'', ''it'', ''de''] = [''it'']"
    by (simp add: handle_select_all_in_continent_def europe_facts)
  have "are_none_selected [europe] (handle_select_all_in_continent [europe] ''Europe'' False [''fr'', ''it'', ''de''])
          ''Europe''"
    using deselect_all_clears_continent [OF f, of "[''fr'', ''it'', ''de'']"] by (rule conjunct1)
  with h f show ?thesis by simp
qed

text \<open>C20. "Deselect All" undoes "Select All" on a selection that held none of
  the continent's countries.\<close>

theorem deselect_after_select_all:
  assumes "find_continent data name = Some c" and "set sel \<inter> set (continent_codes c) = {}"
  shows "handle_select_all_in_continent data name False (handle_select_all_in_continent data name True sel) = sel"
proof -
  have "filter (\<lambda>x. x \<notin> set (continent_codes c)) sel = sel"
    using assms(2) by (auto simp: filter_id_conv)
  then show ?thesis
    using assms(1) by (simp add: handle_select_all_in_continent_def)
qed

lemma deselect_after_select_all_witness:
  "find_continent [europe] ''Europe'' = Some europe \<and> set [''it''] \<inter> set (continent_codes europe) = {} \<and>
   handle_select_all_in_continent [europe] ''Europe'' False
     (handle_select_all_in_continent [europe] ''Europe'' True [''it'']) = [''it'']"
proof -
  note f = europe_facts(1)
  have d: "set [''it''] \<inter> set (continent_codes europe) = {}"
    by (simp add: europe_facts)
  show ?thesis using f d deselect_after_select_all [OF f d] by simp
qed

text \<open>C21. \<open>getCountryNameFromCode\<close>, a search continent by continent, is a
  search of the flattened country list: the name of the first country with the
  code, and the code itself when there is none.\<close>

theorem get_country_name_from_code_flat:
  "get_country_name_from_code data code =
     (case find (\<lambda>x. country_code x = code) (concat (map continent_countries data)) of
        Some x \<Rightarrow> country_name x
      | None \<Rightarrow> code)"
  by (induction data) (simp_all add: find_append_list split: option.split)

text \<open>C22. The random pick of \<open>getRandomCountries(2)\<close> holds two different
  codes of the table (fewer only when the table has fewer).\<close>

theorem random_selection_bounds:
  assumes "mset shuffled = mset (get_all_country_codes data)" and "distinct (get_all_country_codes data)"
  shows "distinct (get_random_countries shuffled 2) \<and>
         set (get_random_countries shuffled 2) \<subseteq> set (get_all_country_codes data) \<and>
         length (get_random_countries shuffled 2) = min 2 (length (get_all_country_codes data))"
  using random_pick [OF assms] .

lemma random_selection_bounds_witness:
  "mset [''de'', ''fr''] = mset (get_all_country_codes [europe]) \<and> distinct (get_all_country_codes [europe]) \<and>
   get_random_countries [''de'', ''fr''] 2 = [''de'', ''fr''] \<and>
   length (get_random_countries [''de'', ''fr''] 2) = min 2 (length (get_all_country_codes [europe]))"
proof -
  have a: "mset [''de'', ''fr''] = mset (get_all_country_codes [europe])"
    by (simp add: europe_facts)
  have b: "distinct (get_all_country_codes [europe])"
    by (simp add: europe_facts)
  show ?thesis using a b random_selection_bounds [OF a b] by (simp add: get_random_countries_def)
qed

text \<open>C23. Clicking an unchecked country's checkbox twice restores the state.\<close>

theorem checkbox_twice:
  assumes "code \<notin> set (selected st)"
  shows "ui_step data (ui_step data st (CheckboxClick code)) (CheckboxClick code) = st"
proof -
  have "filter (\<lambda>x. x \<noteq> code) (selected st) = selected st"
    using assms by (auto simp: filter_id_conv)
  with assms show ?thesis by (simp add: handle_country_select_def)
qed

lemma checkbox_twice_witness:
  "''fr'' \<notin> set (selected (initial_ui [''de''])) \<and>
   ui_step [europe] (ui_step [europe] (initial_ui [''de'']) (CheckboxClick ''fr'')) (CheckboxClick ''fr'') =
   initial_ui [''de'']"
proof -
  have a: "''fr'' \<notin> set (selected (initial_ui [''de'']))"
    by (simp add: initial_ui_def get_random_countries_def)
  show ?thesis using a checkbox_twice [OF a, of "[europe]"] by simp
qed

text \<open>C24. For a continent with countries, "Select All" and "Deselect All" are
  never both disabled.\<close>

theorem select_buttons_not_both_disabled:
  assumes "find_continent data name = Some c" and "continent_countries c \<noteq> []"
  shows "\<not> (are_all_selected data sel name \<and> are_none_selected data sel name)"
  using assms by (cases "continent_countries c") (auto simp: are_all_selected_def are_none_selected_def)

lemma select_buttons_not_both_disabled_witness:
  "find_continent [europe] ''Europe'' = Some europe \<and> continent_countries europe \<noteq> [] \<and>
   \<not> (are_all_selected [europe] [] ''Europe'' \<and> are_none_selected [europe] [] ''Europe'')"
proof -
  note f = europe_facts(1)
  have n: "continent_countries europe \<noteq> []" by (simp add: europe_def)
  show ?thesis using f n select_buttons_not_both_disabled [OF f n, of "[]"] by simp
qed

end
