(* ===== verification/Views.thy ===== *)
theory Views
  imports CombinedView Selection
begin

text \<open>
  What the page shows apart from the composite: the "Selected Countries" section
  of \<open>App\<close> (src/src/App.tsx, lines 73--97) and the continent sections that
  \<open>CountryList\<close> renders (src/src/components/CountryList.tsx, lines 48--106).
  A rendered element is a record of the values the JSX reads: keys, labels,
  \<open>checked\<close> and \<open>disabled\<close> attributes, and whether a conditional block
  (\<open>cond && (...)\<close>) is present (\<open>Some\<close>) or not (\<open>None\<close>). Markup and
  class names are left out.
\<close>

section \<open>Definitions\<close>

text \<open>\<open>expandedContinents[name]\<close> as a JSX condition: \<open>undefined\<close> and
  \<open>false\<close> are falsy.\<close>

definition is_expanded :: "(string \<rightharpoonup> bool) \<Rightarrow> string \<Rightarrow> bool" where
  "is_expanded expanded name \<longleftrightarrow> expanded name = Some True"

text \<open>The title's marker: a down-pointing triangle when expanded, a right-pointing one otherwise.\<close>

datatype arrow = ArrowExpanded | ArrowCollapsed

text \<open>One \<open>label.country-item\<close> of the grid, lines 83--100.\<close>

record country_item =
  item_key :: string       \<comment> \<open>\<open>key={country.code}\<close>\<close>
  item_checked :: bool     \<comment> \<open>\<open>checked={selectedCountries.includes(country.code)}\<close>\<close>
  item_flag_src :: string  \<comment> \<open>the flag's \<open>src\<close>\<close>
  item_flag_alt :: string  \<comment> \<open>\<open>`${country.name} flag`\<close>\<close>
  item_name :: string      \<comment> \<open>\<open>{country.name}\<close>\<close>

text \<open>One \<open>div.continent-section\<close>, lines 53--104.\<close>

record continent_section =
  section_key :: string
  section_arrow :: arrow
  select_all_disabled :: bool
  deselect_all_disabled :: bool
  section_grid :: "country_item list option"

definition render_country_item :: "string list \<Rightarrow> country \<Rightarrow> country_item" where
  "render_country_item sel c =
     \<lparr>item_key = country_code c, item_checked = (country_code c \<in> set sel),
      item_flag_src = flag_url (country_code c), item_flag_alt = country_name c @ '' flag'',
      item_name = country_name c\<rparr>"

definition render_continent_section ::
  "continent list \<Rightarrow> string list \<Rightarrow> (string \<rightharpoonup> bool) \<Rightarrow> continent \<Rightarrow> continent_section" where
  "render_continent_section data sel expanded c =
     \<lparr>section_key = continent_name c,
      section_arrow = (if is_expanded expanded (continent_name c) then ArrowExpanded else ArrowCollapsed),
      select_all_disabled = are_all_selected data sel (continent_name c),
      deselect_all_disabled = are_none_selected data sel (continent_name c),
      section_grid = (if is_expanded expanded (continent_name c)
                      then Some (map (render_country_item sel) (continent_countries c)) else None)\<rparr>"

text \<open>\<open>countriesData.map(continent => ...)\<close>.\<close>

definition render_country_list ::
  "continent list \<Rightarrow> string list \<Rightarrow> (string \<rightharpoonup> bool) \<Rightarrow> continent_section list" where
  "render_country_list data sel expanded = map (render_continent_section data sel expanded) data"

text \<open>The "Selected Countries" section, lines 73--97: the count in the heading,
  the label of the toggle button, and, while the list is visible, one \<open>li\<close> per
  selected code with its key and its label.\<close>

record selected_panel =
  selected_count :: nat
  toggle_label :: string
  selected_items :: "(string \<times> string) list option"

definition render_selected_panel :: "continent list \<Rightarrow> ui_state \<Rightarrow> selected_panel" where
  "render_selected_panel data st =
     \<lparr>selected_count = length (selected st),
      toggle_label = (if countries_list_visible st then ''Hide'' else ''Show''),
      selected_items = (if countries_list_visible st
                        then Some (map (\<lambda>code. (code, get_country_name_from_code data code)) (selected st))
                        else None)\<rparr>"

text \<open>The whole page of \<open>App\<close>, lines 69--106: the combined flag, the selected
  countries, and the country list.\<close>

record page =
  page_flag :: flag_panel
  page_selected :: selected_panel
  page_country_list :: "continent_section list"

definition render_page :: "continent list \<Rightarrow> ui_state \<Rightarrow> flag_view \<Rightarrow> page" where
  "render_page data ui v =
     \<lparr>page_flag = render v, page_selected = render_selected_panel data ui,
      page_country_list = render_country_list data (selected ui) (expanded_continents ui)\<rparr>"

section \<open>Lemmas\<close>

lemma is_expanded_toggle:
  "is_expanded (toggle_continent expanded name) name' =
     (if name' = name then \<not> is_expanded expanded name else is_expanded expanded name')"
  by (simp add: is_expanded_def toggle_continent_def)

lemma title_clicks:
  "is_expanded (expanded_continents (((\<lambda>st. ui_step data st (ContinentTitleClick name)) ^^ k) st)) name =
     (if even k then is_expanded (expanded_continents st) name else \<not> is_expanded (expanded_continents st) name)"
  by (induction k) (simp_all add: is_expanded_toggle)

lemma select_all_step_covers:
  assumes "find_continent data name = Some c"
  shows "set (continent_codes c) \<subseteq> set (selected (ui_step data st (SelectAllClick name)))"
  using assms set_select_all [OF assms, of "selected st"]
  by (auto simp: are_all_selected_def continent_codes_def list_all_iff)

lemma get_country_name_from_code_member:
  assumes "distinct (get_all_country_codes data)" and "c \<in> set data" and "x \<in> set (continent_countries c)"
  shows "get_country_name_from_code data (country_code x) = country_name x"
  using assms
proof (induction data)
  case Nil
  then show ?case by simp
next
  case (Cons c0 cs)
  have d0: "distinct (map country_code (continent_countries c0))"
    and dcs: "distinct (get_all_country_codes cs)"
    and disj: "set (continent_codes c0) \<inter> set (get_all_country_codes cs) = {}"
    using Cons.prems(1) by (simp_all add: get_all_country_codes_def continent_codes_def)
  show ?case
  proof (cases "c = c0")
    case True
    with Cons.prems(3) d0
    have "find (\<lambda>y. country_code y = country_code x) (continent_countries c0) = Some x"
      by (auto simp: find_Some_iff in_set_conv_nth distinct_conv_nth)
    then show ?thesis by simp
  next
    case False
    with Cons.prems(2) have c: "c \<in> set cs" by simp
    with Cons.prems(3) have "country_code x \<in> set (get_all_country_codes cs)"
      by (auto simp: get_all_country_codes_def continent_codes_def)
    with disj have "find (\<lambda>y. country_code y = country_code x) (continent_countries c0) = None"
      by (auto simp: find_None_iff continent_codes_def)
    then show ?thesis using Cons.IH [OF dcs c Cons.prems(3)] by simp
  qed
qed

section \<open>Properties\<close>

text \<open>C28. In every state the page can reach (with a table of distinct codes),
  the \<open>li\<close> elements of the "Selected Countries" list have distinct React keys,
  and there are as many as the heading counts.\<close>

theorem selected_list_keys_distinct:
  assumes "distinct (get_all_country_codes data)" and "ui_reachable data st"
    and "selected_items (render_selected_panel data st) = Some items"
  shows "distinct (map fst items) \<and> length items = selected_count (render_selected_panel data st)"
proof -
  have "distinct (selected st)"
    using ui_reachable_inv [OF assms(1,2)] by (simp add: ui_inv_def)
  moreover have "items = map (\<lambda>code. (code, get_country_name_from_code data code)) (selected st)"
    using assms(3) by (simp add: render_selected_panel_def split: if_splits)
  ultimately show ?thesis by (simp add: render_selected_panel_def comp_def)
qed

lemma selected_list_keys_distinct_witness:
  "distinct (get_all_country_codes [europe]) \<and> ui_reachable [europe] (initial_ui [''de'', ''fr'']) \<and>
   selected_items (render_selected_panel [europe] (initial_ui [''de'', ''fr''])) =
     Some [(''de'', ''Germany''), (''fr'', ''France'')] \<and>
   distinct (map fst [(''de'', ''Germany''), (''fr'', ''France'')])"
proof -
  have d: "distinct (get_all_country_codes [europe])"
    by (simp add: europe_facts)
  have r: "ui_reachable [europe] (initial_ui [''de'', ''fr''])"
    by (rule ui_reachable.init) (simp add: europe_facts)
  have i: "selected_items (render_selected_panel [europe] (initial_ui [''de'', ''fr''])) =
     Some [(''de'', ''Germany''), (''fr'', ''France'')]"
    by (simp add: render_selected_panel_def initial_ui_def get_random_countries_def europe_def)
  show ?thesis using d r i selected_list_keys_distinct [OF d r i] by simp
qed

text \<open>C29. A country's checkbox is controlled: clicking it flips its own
  \<open>checked\<close> attribute and leaves every other checkbox as it was.\<close>

theorem checkbox_click_flips_item:
  "item_checked (render_country_item (selected (ui_step data st (CheckboxClick code))) x) =
     (if country_code x = code then \<not> item_checked (render_country_item (selected st) x)
      else item_checked (render_country_item (selected st) x))"
  by (auto simp: render_country_item_def handle_country_select_def)

text \<open>C30. Clicking a continent's title \<open>k\<close> times from the first render shows
  its country grid and the expanded marker exactly when \<open>k\<close> is odd: the first
  click expands, although \<open>expandedContinents\<close> starts without the entry.\<close>

theorem title_clicks_expand:
  "section_grid (render_continent_section data sel
      (expanded_continents (((\<lambda>st. ui_step data st (ContinentTitleClick (continent_name c))) ^^ k)
         (initial_ui shuffled))) c) \<noteq> None \<longleftrightarrow> odd k"
proof -
  have "is_expanded (expanded_continents (((\<lambda>st. ui_step data st (ContinentTitleClick (continent_name c))) ^^ k)
          (initial_ui shuffled))) (continent_name c) = odd k"
    using title_clicks [where data = data and name = "continent_name c" and k = k and st = "initial_ui shuffled"]
    by (simp add: initial_ui_def is_expanded_def)
  then show ?thesis by (simp add: render_continent_section_def)
qed

text \<open>C31. After "Select All" of a continent with countries, its section shows
  "Select All" disabled, "Deselect All" enabled, and, when expanded, every
  checkbox of the continent checked.\<close>

theorem select_all_section:
  assumes "find_continent data name = Some c" and "continent_countries c \<noteq> []"
  shows "let sec = render_continent_section data (selected (ui_step data st (SelectAllClick name))) ex c
         in select_all_disabled sec \<and> \<not> deselect_all_disabled sec \<and>
            map_option (map item_checked) (section_grid sec) =
              (if is_expanded ex name then Some (replicate (length (continent_countries c)) True) else None)"
proof -
  let ?sel = "selected (ui_step data st (SelectAllClick name))"
  have name: "continent_name c = name"
    using find_continent_SomeD [OF assms(1)] by simp
  have all: "country_code x \<in> set ?sel" if "x \<in> set (continent_countries c)" for x
    using select_all_step_covers [OF assms(1), of st] that by (auto simp: continent_codes_def)
  then have "are_all_selected data ?sel name" and "\<not> are_none_selected data ?sel name"
    using assms by (auto simp: are_all_selected_def are_none_selected_def list_all_iff neq_Nil_conv)
  moreover have "map item_checked (map (render_country_item ?sel) (continent_countries c)) =
                 replicate (length (continent_countries c)) True"
    using all by (simp add: render_country_item_def map_replicate_const [symmetric] cong: map_cong)
  ultimately show ?thesis
    by (simp add: render_continent_section_def name Let_def)
qed

lemma select_all_section_witness:
  "find_continent [europe] ''Europe'' = Some europe \<and> continent_countries europe \<noteq> [] \<and>
   select_all_disabled (render_continent_section [europe]
     (selected (ui_step [europe] (initial_ui [''de'']) (SelectAllClick ''Europe''))) [''Europe'' \<mapsto> True] europe) \<and>
   map_option (map item_checked) (section_grid (render_continent_section [europe]
     (selected (ui_step [europe] (initial_ui [''de'']) (SelectAllClick ''Europe''))) [''Europe'' \<mapsto> True] europe)) =
     Some [True, True]"
proof -
  note f = europe_facts(1)
  have n: "continent_countries europe \<noteq> []" by (simp add: europe_def)
  show ?thesis
    using f n select_all_section [OF f n, of "initial_ui [''de'']" "[''Europe'' \<mapsto> True]"]
    by (simp add: Let_def is_expanded_def europe_def)
qed

text \<open>C32. The two lists agree on names: for a table with distinct codes, the
  label \<open>getCountryNameFromCode\<close> gives a selected country in the "Selected
  Countries" list is the name its checkbox shows in the continent grid.\<close>

theorem selected_label_is_item_name:
  assumes "distinct (get_all_country_codes data)" and "c \<in> set data" and "x \<in> set (continent_countries c)"
    and "selected_items (render_selected_panel data st) = Some items"
    and "(country_code x, label) \<in> set items"
  shows "label = item_name (render_country_item (selected st) x)"
proof -
  have "label = get_country_name_from_code data (country_code x)"
    using assms(4,5) by (auto simp: render_selected_panel_def split: if_splits)
  then show ?thesis
    using get_country_name_from_code_member [OF assms(1-3)] by (simp add: render_country_item_def)
qed

lemma selected_label_is_item_name_witness:
  "distinct (get_all_country_codes [europe]) \<and> europe \<in> set [europe] \<and>
   \<lparr>country_code = ''fr'', country_name = ''France''\<rparr> \<in> set (continent_countries europe) \<and>
   selected_items (render_selected_panel [europe] (initial_ui [''fr''])) = Some [(''fr'', ''France'')] \<and>
   (''fr'', ''France'') \<in> set [(''fr'', ''France'')] \<and>
   ''France'' = item_name (render_country_item (selected (initial_ui [''fr'']))
                  \<lparr>country_code = ''fr'', country_name = ''France''\<rparr>)"
proof -
  have d: "distinct (get_all_country_codes [europe])"
    by (simp add: europe_facts)
  have c: "europe \<in> set [europe]" by simp
  have x: "\<lparr>country_code = ''fr'', country_name = ''France''\<rparr> \<in> set (continent_countries europe)"
    by (simp add: europe_def)
  have i: "selected_items (render_selected_panel [europe] (initial_ui [''fr''])) = Some [(''fr'', ''France'')]"
    by (simp add: render_selected_panel_def initial_ui_def get_random_countries_def europe_def)
  have m: "(country_code \<lparr>country_code = ''fr'', country_name = ''France''\<rparr>, ''France'') \<in> set [(''fr'', ''France'')]"
    by simp
  show ?thesis using d c x i m selected_label_is_item_name [OF d c x i m] by simp
qed

end
