(* ===== verification/FlagStateMachine.thy ===== *)
theory FlagStateMachine
  imports CombinedView
begin

text \<open>
  The state machine of spec section 4.1, as the caller observes it:
  \<open>Idle \<rightarrow> Resolving \<rightarrow> {Succeeded(raster) | Failed(reason)}\<close>, with
  \<open>Resolving\<close> re-entered on every new input. \<open>spec_step\<close> is that machine over
  the outcomes of the compositor (\<open>composite_result\<close>); \<open>abs_view\<close> reads the
  spec state off the state of \<open>CombinedFlag\<close> (src/src/components/CombinedFlag.tsx)
  by the tests its render makes (lines 180, 194, 209, 227). The component
  refines the machine on serial runs: runs of \<open>view_step\<close> in which the
  selection changes only when no call is pending. Interleaved runs do not refine
  it (the stale results of C14 and C15).
\<close>

section \<open>Definitions\<close>

text \<open>The caller shows a fixed message on failure, so \<open>Failed\<close> carries no reason.\<close>

datatype spec_state = Idle | Resolving "string list" | Succeeded raster | Failed

text \<open>The events of the machine: a new input set, and the outcome of the
  resolution in progress.\<close>

datatype spec_event = Input "string list" | Outcome

text \<open>A new input restarts the machine: an empty one leaves it idle (the caller
  prompts for input; the compositor would reject it with \<open>NoInput\<close>), any other
  one starts resolving it, whatever the state. The outcome of the compositor for
  the input being resolved ends the resolution.\<close>

inductive spec_step ::
  "bool \<Rightarrow> ('img \<Rightarrow> raster \<Rightarrow> raster) \<Rightarrow> ('img \<Rightarrow> bool) \<Rightarrow> (string \<Rightarrow> 'img option)
   \<Rightarrow> spec_event \<Rightarrow> spec_state \<Rightarrow> spec_state \<Rightarrow> bool"
  for has_context draw_image tainted decode where
  input: "spec_step has_context draw_image tainted decode (Input sel) s (if sel = [] then Idle else Resolving sel)"
| succeed: "composite_result has_context draw_image tainted decode (map flag_url sel) = Inr r \<Longrightarrow>
     spec_step has_context draw_image tainted decode Outcome (Resolving sel) (Succeeded r)"
| fail: "composite_result has_context draw_image tainted decode (map flag_url sel) = Inl e \<Longrightarrow>
     spec_step has_context draw_image tainted decode Outcome (Resolving sel) Failed"

text \<open>The abstraction: the spec state a state of \<open>CombinedFlag\<close> stands for.\<close>

definition abs_view :: "flag_view \<Rightarrow> spec_state" where
  "abs_view st =
     (if selected_countries st = [] then Idle
      else if is_loading st then Resolving (selected_countries st)
      else if error_text st \<noteq> [] then Failed
      else case combined_flag_url st of Some r \<Rightarrow> Succeeded r | None \<Rightarrow> Idle)"

text \<open>Serial runs: a new selection arrives only when no call is pending, and
  the pending call is the one that settles. Each step carries the spec event it
  stands for.\<close>

inductive serial_step ::
  "bool \<Rightarrow> ('img \<Rightarrow> raster \<Rightarrow> raster) \<Rightarrow> ('img \<Rightarrow> bool) \<Rightarrow> (string \<Rightarrow> 'img option)
   \<Rightarrow> spec_event \<Rightarrow> flag_view \<Rightarrow> flag_view \<Rightarrow> bool"
  for has_context draw_image tainted decode where
  select: "pending_requests st = [] \<Longrightarrow>
     serial_step has_context draw_image tainted decode (Input sel) st (props_change sel st)"
| settle: "pending_requests st \<noteq> [] \<Longrightarrow>
     serial_step has_context draw_image tainted decode Outcome st (settle_request has_context draw_image tainted decode 0 st)"

inductive serial_reachable ::
  "bool \<Rightarrow> ('img \<Rightarrow> raster \<Rightarrow> raster) \<Rightarrow> ('img \<Rightarrow> bool) \<Rightarrow> (string \<Rightarrow> 'img option) \<Rightarrow> flag_view \<Rightarrow> bool"
  for has_context draw_image tainted decode where
  mount: "serial_reachable has_context draw_image tainted decode (selection_effect (initial_view sel))"
| step: "serial_reachable has_context draw_image tainted decode st \<Longrightarrow>
     serial_step has_context draw_image tainted decode ev st st' \<Longrightarrow>
     serial_reachable has_context draw_image tainted decode st'"

text \<open>The invariant of serial runs: at most one call pending, for the current
  selection, exactly while loading, and no error shown while loading.\<close>

definition serial_inv :: "flag_view \<Rightarrow> bool" where
  "serial_inv st \<longleftrightarrow>
     (if pending_requests st = [] then \<not> is_loading st
      else map snd (pending_requests st) = [map flag_url (selected_countries st)] \<and>
           selected_countries st \<noteq> [] \<and> is_loading st \<and> error_text st = [])"

section \<open>Lemmas\<close>

lemma serial_step_view_step:
  "serial_step has_context draw_image tainted decode ev st st' \<Longrightarrow> view_step has_context draw_image tainted decode st st'"
proof (induction rule: serial_step.induct)
  case (select st sel)
  show ?case by (rule view_step.select)
next
  case (settle st)
  then show ?case by (intro view_step.settle) simp
qed

lemma serial_reachable_view:
  "serial_reachable has_context draw_image tainted decode st \<Longrightarrow> view_reachable has_context draw_image tainted decode st"
proof (induction rule: serial_reachable.induct)
  case (mount sel)
  show ?case by (rule view_reachable.mount)
next
  case (step st ev st')
  show ?case by (rule view_reachable.step [OF step.IH serial_step_view_step [OF step.hyps(2)]])
qed

lemma props_change_serial_inv:
  "serial_inv st \<Longrightarrow> pending_requests st = [] \<Longrightarrow> serial_inv (props_change sel st)"
  by (cases "sel = []") (simp_all add: serial_inv_def props_change_nonempty)

lemma map_snd_singleton: "map snd ps = [u] \<Longrightarrow> \<exists>k. ps = [(k, u)]"
  by (cases ps) auto

lemma serial_inv_pending:
  assumes "serial_inv st" and "pending_requests st \<noteq> []"
  shows "(\<exists>k. pending_requests st = [(k, map flag_url (selected_countries st))]) \<and>
         selected_countries st \<noteq> [] \<and> is_loading st \<and> error_text st = []"
  using assms map_snd_singleton [of "pending_requests st"] by (simp add: serial_inv_def)

lemma settle_request_serial_inv:
  assumes "serial_inv st" and "pending_requests st \<noteq> []"
  shows "serial_inv (settle_request has_context draw_image tainted decode 0 st)"
proof -
  from serial_inv_pending [OF assms] obtain k
    where "pending_requests st = [(k, map flag_url (selected_countries st))]" by blast
  then have "pending_requests (settle_request has_context draw_image tainted decode 0 st) = []"
    by (simp add: settle_request_fields)
  moreover have "\<not> is_loading (settle_request has_context draw_image tainted decode 0 st)"
    by (simp add: settle_request_fields)
  ultimately show ?thesis by (simp add: serial_inv_def)
qed

lemma serial_reachable_inv:
  "serial_reachable has_context draw_image tainted decode st \<Longrightarrow> serial_inv st"
proof (induction rule: serial_reachable.induct)
  case (mount sel)
  show ?case
    by (cases "sel = []") (simp_all add: selection_effect_def initial_view_def serial_inv_def)
next
  case (step st ev st')
  from step.hyps(2) show ?case
  proof (cases rule: serial_step.cases)
    case (select sel)
    with step.IH show ?thesis by (simp add: props_change_serial_inv)
  next
    case settle
    with step.IH show ?thesis by (simp add: settle_request_serial_inv)
  qed
qed

text \<open>Each concrete step refines an abstract one.\<close>

lemma abs_view_props_change:
  "abs_view (props_change sel st) = (if sel = [] then Idle else Resolving sel)"
  by (cases "sel = []") (simp_all add: abs_view_def props_change_nonempty)

lemma select_refines:
  "spec_step has_context draw_image tainted decode (Input sel) (abs_view st) (abs_view (props_change sel st))"
  unfolding abs_view_props_change by (rule spec_step.input)

lemma settle_refines:
  assumes "serial_inv st" and "pending_requests st \<noteq> []"
  shows "spec_step has_context draw_image tainted decode Outcome (abs_view st)
           (abs_view (settle_request has_context draw_image tainted decode 0 st))"
proof -
  obtain k where p: "pending_requests st = [(k, map flag_url (selected_countries st))]"
    and ne: "selected_countries st \<noteq> []" and l: "is_loading st" and e: "error_text st = []"
    using serial_inv_pending [OF assms] by blast
  let ?r = "composite_result has_context draw_image tainted decode (map flag_url (selected_countries st))"
  have a: "abs_view st = Resolving (selected_countries st)"
    using ne l by (simp add: abs_view_def)
  show ?thesis
  proof (cases ?r)
    case (Inl err)
    then have "abs_view (settle_request has_context draw_image tainted decode 0 st) = Failed"
      using p ne by (simp add: settle_request_first on_settled_def abs_view_def failure_message_def)
    with a Inl show ?thesis by (simp add: spec_step.fail)
  next
    case (Inr img)
    then have "abs_view (settle_request has_context draw_image tainted decode 0 st) = Succeeded img"
      using p ne e by (simp add: settle_request_first on_settled_def abs_view_def)
    with a Inr show ?thesis by (simp add: spec_step.succeed)
  qed
qed

section \<open>Properties\<close>

text \<open>C38. Refinement of the spec's state machine (section 4.1): on serial runs,
  every step of \<open>CombinedFlag\<close> is the step of the machine for the same event
  between the abstract states: a new selection is the machine's \<open>Input\<close> (idle
  for the empty one, resolving it otherwise), and the pending call settling is its
  \<open>Outcome\<close>, \<open>Succeeded\<close> with the composite of the current selection or
  \<open>Failed\<close>. Mounting with a selection is the machine's input of that selection
  from \<open>Idle\<close>.\<close>

theorem serial_runs_refine_spec:
  assumes "serial_reachable has_context draw_image tainted decode st"
    and "serial_step has_context draw_image tainted decode ev st st'"
  shows "spec_step has_context draw_image tainted decode ev (abs_view st) (abs_view st') \<and>
         spec_step has_context draw_image tainted decode (Input sel) Idle (abs_view (selection_effect (initial_view sel)))"
proof
  have inv: "serial_inv st"
    using assms(1) by (rule serial_reachable_inv)
  from assms(2) show "spec_step has_context draw_image tainted decode ev (abs_view st) (abs_view st')"
  proof (cases rule: serial_step.cases)
    case (select sel')
    then show ?thesis by (simp add: select_refines)
  next
    case settle
    then show ?thesis by (simp add: settle_refines [OF inv])
  qed
next
  show "spec_step has_context draw_image tainted decode (Input sel) Idle (abs_view (selection_effect (initial_view sel)))"
    unfolding selection_effect_initial abs_view_props_change by (rule spec_step.input)
qed

lemma serial_runs_refine_spec_witness:
  "serial_reachable True draw_opaque no_taint (\<lambda>u. None :: raster option) (selection_effect (initial_view [''fr''])) \<and>
   serial_step True draw_opaque no_taint (\<lambda>u. None :: raster option) Outcome (selection_effect (initial_view [''fr'']))
     (settle_request True draw_opaque no_taint (\<lambda>u. None :: raster option) 0 (selection_effect (initial_view [''fr'']))) \<and>
   abs_view (selection_effect (initial_view [''fr''])) = Resolving [''fr''] \<and>
   abs_view (settle_request True draw_opaque no_taint (\<lambda>u. None :: raster option) 0
     (selection_effect (initial_view [''fr'']))) = Failed \<and>
   spec_step True draw_opaque no_taint (\<lambda>u. None :: raster option) Outcome (Resolving [''fr'']) Failed"
proof -
  have r: "serial_reachable True draw_opaque no_taint (\<lambda>u. None :: raster option) (selection_effect (initial_view [''fr'']))"
    by (rule serial_reachable.mount)
  have s: "serial_step True draw_opaque no_taint (\<lambda>u. None :: raster option) Outcome (selection_effect (initial_view [''fr'']))
     (settle_request True draw_opaque no_taint (\<lambda>u. None :: raster option) 0 (selection_effect (initial_view [''fr''])))"
    by (rule serial_step.settle) (simp add: selection_effect_def initial_view_def)
  have a1: "abs_view (selection_effect (initial_view [''fr''])) = Resolving [''fr'']"
    by (simp add: abs_view_def selection_effect_def initial_view_def)
  have a2: "abs_view (settle_request True draw_opaque no_taint (\<lambda>u. None :: raster option) 0
     (selection_effect (initial_view [''fr'']))) = Failed"
    by (simp add: abs_view_def settle_request_def selection_effect_def initial_view_def on_settled_def
                  failure_message_def composite_result_def final_outcome_def js_trim_def)
  show ?thesis
    using r s a1 a2 serial_runs_refine_spec [OF r s] by simp
qed

end
