(* ===== verification/Spec2Isabelle.thy ===== *)
theory Spec2Isabelle
  imports Views FlagStateMachine
begin

text \<open>
  \<^bold>\<open>Flag-Jockey: a verification development.\<close>

  Flag-Jockey (src/src) is a React page that averages the flags of selected
  countries into one composite image. Its parts and how they interact:
  \<^item> \<open>App\<close> (src/src/App.tsx) keeps \<open>selectedCountries\<close> and passes it to
    \<open>CombinedFlag\<close> and \<open>CountryList\<close>; its handlers change the selection
    (checkboxes, "Select All"/"Deselect All" of a continent, "Random").
  \<^item> \<open>CountryList\<close> (src/src/components/CountryList.tsx) renders the continents,
    keeps which are expanded, and enables or disables the continent buttons.
  \<^item> \<open>CombinedFlag\<close> (src/src/components/CombinedFlag.tsx) runs an effect on
    every new selection array: it calls \<open>calculateAveragePixels\<close> on the flag
    URLs, and shows a prompt, a progress message, an error, or the composite.
  \<^item> \<open>calculateAveragePixels\<close> loads one image per URL; \<open>onload\<close> and
    \<open>onerror\<close> count settled images, store loaded ones at their index of a sparse
    array, and when the last one settles draw every image on one 300x200 canvas,
    sum the samples in a \<open>Uint32Array\<close>, divide by \<open>images.length\<close>, round with
    \<open>Math.round\<close> into a \<open>Uint8ClampedArray\<close>, and resolve with the canvas.

  \<^bold>\<open>Theories.\<close>
  \<^item> \<open>Prelude\<close>: machine types (\<open>u8 = 8 word\<close>, \<open>u32 = 32 word\<close>, rasters as
    \<open>u8 list\<close>) and the JavaScript semantics the code relies on: sparse arrays
    (\<open>js_assign\<close> for \<open>a[i] = v\<close>, \<open>js_present\<close> for what \<open>forEach\<close> visits,
    \<open>js_trim\<close>), with the collection \<open>js_array_simps\<close>.
  \<^item> \<open>Pixels\<close>: lines 24--83 of CombinedFlag.tsx. \<open>draw_and_sum\<close> is one
    \<open>forEach\<close> iteration (clearRect, drawImage, getImageData, accumulate),
    \<open>add_pixel_values\<close> the wrapping \<open>Uint32Array\<close> loop, \<open>average_sample\<close>
    the rounding of one sum (with the divisions by zero written out),
    \<open>avg_fill\<close>/\<open>average_loop\<close> the index loop that stores the rounded sums into
    the clamped array, \<open>average_images\<close> the whole processing block. The
    browser's \<open>drawImage\<close> is a parameter that keeps the canvas size
    (\<open>canvas_preserving\<close>); \<open>composite_spec\<close> is the spec's rounded mean.
  \<^item> \<open>Loader\<close>: lines 13--150. State record \<open>loader\<close> (images, loadedCount,
    canvas, promise); \<open>on_load\<close>, \<open>on_error\<close>, \<open>process_images\<close>,
    \<open>settle\<close> (a promise settles once), with the \<open>catch\<close> of the processing
    block (a \<open>SecurityError\<close> of \<open>getImageData\<close> once a drawn image made the
    canvas origin-unclean, \<open>ReadBackFailed\<close>); \<open>calculate_average_pixels\<close> folds the
    handlers over the events of an arbitrary arrival order; \<open>composite_result\<close> is
    the order-free reference value.
  \<^item> \<open>CombinedView\<close>: lines 7--11 and 152--242. Record \<open>flag_view\<close>, the effect
    (\<open>selection_effect\<close>, \<open>props_change\<close>), the continuations
    (\<open>on_settled\<close>, \<open>settle_request\<close>), \<open>render\<close>, and the inductive
    \<open>view_step\<close>/\<open>view_reachable\<close> in which pending calls settle in any order,
    interleaved with selection changes.
  \<^item> \<open>FlagStateMachine\<close>: the spec's caller-side state machine (section 4.1) as
    the inductive \<open>spec_step\<close> over \<open>spec_state\<close>, the abstraction
    \<open>abs_view\<close> from \<open>flag_view\<close> (by the tests of the render), and the serial
    runs \<open>serial_step\<close>/\<open>serial_reachable\<close> of \<open>view_step\<close>, in which the
    selection changes only when no call is pending.
  \<^item> \<open>Selection\<close>: App.tsx lines 9--67, 76--88 and CountryList.tsx lines 10--87.
    The handlers (\<open>handle_country_select\<close>, \<open>handle_select_all_in_continent\<close>,
    \<open>get_random_countries\<close>), the lookups (\<open>get_country_name_from_code\<close>,
    \<open>are_all_selected\<close>, \<open>are_none_selected\<close>), \<open>toggle_continent\<close>, the
    user events \<open>ui_event\<close> with \<open>ui_step\<close>, and \<open>ui_reachable\<close>.
  \<^item> \<open>Views\<close>: App.tsx lines 69--106 and CountryList.tsx lines 48--106. What the
    page shows besides the composite: \<open>render_selected_panel\<close> (the heading
    count, the "Hide"/"Show" label, the list of selected names with their keys),
    \<open>render_continent_section\<close> and \<open>render_country_item\<close> (the expanded
    marker, the disabled buttons, the controlled checkboxes), and
    \<open>render_page\<close>, the page of \<open>App\<close>.
  \<^item> This theory: the interface between \<open>App\<close> and \<open>CombinedFlag\<close>
    (\<open>app_step\<close>: a user event, then the effect when the handler stored a new
    selection array), the page's reachable states \<open>app_reachable\<close> (first
    render, then user events and settling calls interleaved), the schedule
    \<open>settle_all\<close> that lets every pending call settle, and the properties that
    span components.

  \<^bold>\<open>What the lemmas show.\<close>
  Loader: every arrival order of the image events settles the promise with the
  same value (C1), nothing settles before the last event (C2), the value is the
  spec's mean when failed sources follow the loaded ones (C3), but a failed source
  before a loaded one enlarges the divisor (C4, a defect), solid colours and the
  spec's scenarios (C5--C7), the three rejections (C8), and the rejection of
  the whole call when one loaded image makes the canvas unreadable (C37, against
  spec section 6). Pixels: the reused canvas
  does not mix images (C9), the 32-bit sums are exact up to 16843009 images (C10),
  the integer rounding is \<open>Math.round\<close> (C11), the clamp never acts (C12).
  CombinedView: an invariant of all reachable states (C13); stale results are not
  discarded (C14, against spec section 5) and a stale failure hides a fresh result
  (C15, a defect); without interleaving the current result is shown (C16),
  and serial runs refine the spec's state machine step by step (C38,
  FlagStateMachine).
  Selection: selections stay duplicate-free (C17), the continent buttons do what
  they say (C18, C19, C24), round trips (C20, C23), the name lookup is a flat search
  (C21), the random pick (C22). Here: a checkbox click leads to the composite of
  the new selection (C25), and every requested flag list is duplicate-free (C26). A resolved composite always has the
  canvas's size, for any events (C27, Loader). Views: the selected list's keys are
  distinct (C28), a checkbox flips only itself (C29), an odd number of title
  clicks expands a continent (C30), "Select All" shows the continent fully checked
  with its buttons switched (C31), both lists name a country alike (C32). Here:
  on every page state \<open>CombinedFlag\<close>'s prop is \<open>App\<close>'s selection and the
  counts shown agree (C33), and letting the pending calls settle always ends the
  "Generating" panel (C35). Pixels: the averaging loop returns on every input with
  the typed-array semantics of out-of-range writes (C34).

  \<^bold>\<open>Bounds and parameters.\<close>
  The canvas is 300x200 as in the code; proofs are generic in the size. The sums
  are exact for at most 16843009 images (\<open>16843009 * 255 = 2^32 - 1\<close>), far more
  than the table has countries; beyond that \<open>add_pixel_values\<close> wraps as the
  \<open>Uint32Array\<close> does, and the bound is tight (C36: 16843010 white images
  average to transparent black). \<open>Math.round(s / d)\<close> is modelled on naturals; the
  double quotient of two integers below \<open>2^32\<close> is never off by enough to change
  the rounding of values up to 255, so the integer model is exact for the inputs
  the code produces. No fuel is needed: the averaging loop is a \<open>function\<close>
  that terminates by the measure \<open>length pixel_sums - i\<close>, and every other loop
  of the code is a fold over a finite list.

  \<^bold>\<open>Not modelled.\<close>
  The encoding of \<open>toDataURL\<close> (a data URL is identified with the raster it
  encodes); the pixels \<open>drawImage\<close> produces for an image (a parameter); the
  resolution of flag paths against \<open>import.meta.url\<close> (\<open>flag_url\<close> is the relative
  path, so it is injective by construction; the distinct URLs of C26 rest on
  that); the country table
  src/data/countries, which is not among the sources (a parameter with the record
  shape the code reads); CSS, element nesting and class names, and the hiding of
  broken flag images in the grid (a style change that no state or computation
  reads); which images make the canvas origin-unclean (a parameter
  \<open>tainted\<close>; same-origin flags requested with \<open>crossOrigin\<close> never do, and the
  page's witnesses use \<open>no_taint\<close>); the outer \<open>catch\<close> of lines 146--148,
  since nothing in its \<open>try\<close> block throws (creating a canvas and images, and
  setting \<open>src\<close>); a
  decode that never settles (the relations allow a pending call to stay pending,
  and nothing is claimed about it).
\<close>

section \<open>The App--CombinedFlag interface\<close>

text \<open>Whether a user event makes \<open>App\<close> store a new \<open>selectedCountries\<close> array,
  which makes \<open>CombinedFlag\<close>'s effect run (its dependency is compared by
  identity). "Select All"/"Deselect All" return early for an unknown continent and
  receive no click while disabled.\<close>

fun sets_selection :: "continent list \<Rightarrow> ui_state \<Rightarrow> ui_event \<Rightarrow> bool" where
  "sets_selection data ui (CheckboxClick code) = True"
| "sets_selection data ui (SelectAllClick name) =
     (\<not> are_all_selected data (selected ui) name \<and> find_continent data name \<noteq> None)"
| "sets_selection data ui (DeselectAllClick name) =
     (\<not> are_none_selected data (selected ui) name \<and> find_continent data name \<noteq> None)"
| "sets_selection data ui (RandomClick shuffled) = True"
| "sets_selection data ui ToggleListClick = False"
| "sets_selection data ui (ContinentTitleClick name) = False"

text \<open>\<open><CombinedFlag selectedCountries={selectedCountries} />\<close>: one user event
  of the page.\<close>

definition app_step :: "continent list \<Rightarrow> ui_state \<Rightarrow> flag_view \<Rightarrow> ui_event \<Rightarrow> ui_state \<times> flag_view" where
  "app_step data ui v ev =
     (let ui' = ui_step data ui ev
      in (ui', if sets_selection data ui ev then props_change (selected ui') v else v))"

text \<open>The states of the whole page: \<open>App\<close>'s state and \<open>CombinedFlag\<close>'s.
  The first render picks the random selection and mounts \<open>CombinedFlag\<close> with
  it; then the user acts on the page, and pending calls settle, in any
  interleaving.\<close>

inductive app_reachable ::
  "bool \<Rightarrow> ('img \<Rightarrow> raster \<Rightarrow> raster) \<Rightarrow> ('img \<Rightarrow> bool) \<Rightarrow> (string \<Rightarrow> 'img option) \<Rightarrow> continent list
   \<Rightarrow> ui_state \<Rightarrow> flag_view \<Rightarrow> bool"
  for has_context draw_image tainted decode data where
  init: "mset shuffled = mset (get_all_country_codes data) \<Longrightarrow>
     app_reachable has_context draw_image tainted decode data (initial_ui shuffled)
       (selection_effect (initial_view (selected (initial_ui shuffled))))"
| user: "app_reachable has_context draw_image tainted decode data ui v \<Longrightarrow> event_ok data ev \<Longrightarrow>
     app_reachable has_context draw_image tainted decode data (fst (app_step data ui v ev)) (snd (app_step data ui v ev))"
| settle: "app_reachable has_context draw_image tainted decode data ui v \<Longrightarrow> i < length (pending_requests v) \<Longrightarrow>
     app_reachable has_context draw_image tainted decode data ui (settle_request has_context draw_image tainted decode i v)"

text \<open>The number of countries a panel of \<open>CombinedFlag\<close> states: "Processing
  n countries", "n countries selected", none on the error panel, and the empty
  selection for the prompt.\<close>

fun panel_count :: "flag_panel \<Rightarrow> nat option" where
  "panel_count NoFlagsSelected = Some 0"
| "panel_count (Generating n) = Some n"
| "panel_count (ErrorPanel msg) = None"
| "panel_count (CombinedImage url n) = Some n"
| "panel_count (NoCombinedFlag n) = Some n"

text \<open>A schedule of the browser: the pending calls settle one after the
  other, oldest first.\<close>

fun settle_all ::
  "bool \<Rightarrow> ('img \<Rightarrow> raster \<Rightarrow> raster) \<Rightarrow> ('img \<Rightarrow> bool) \<Rightarrow> (string \<Rightarrow> 'img option) \<Rightarrow> nat \<Rightarrow> flag_view \<Rightarrow> flag_view" where
  "settle_all has_context draw_image tainted decode 0 v = v"
| "settle_all has_context draw_image tainted decode (Suc n) v =
     settle_all has_context draw_image tainted decode n (settle_request has_context draw_image tainted decode 0 v)"

section \<open>Lemmas\<close>

lemma flag_url_inj: "flag_url a = flag_url b \<longleftrightarrow> a = b"
  by (simp add: flag_url_def)

lemma app_step_checkbox:
  "code \<notin> set (selected ui) \<Longrightarrow>
   app_step data ui v (CheckboxClick code) =
     (ui\<lparr>selected := selected ui @ [code]\<rparr>, props_change (selected ui @ [code]) v)"
  by (simp add: app_step_def handle_country_select_def)

lemma sets_selection_keeps:
  "\<not> sets_selection data ui ev \<Longrightarrow> selected (ui_step data ui ev) = selected ui"
  by (cases ev) (auto simp: handle_select_all_in_continent_def)

lemma app_reachable_sync:
  "app_reachable has_context draw_image tainted decode data ui v \<Longrightarrow> selected_countries v = selected ui"
proof (induction rule: app_reachable.induct)
  case (init shuffled)
  then show ?case by (simp add: selection_effect_def initial_view_def)
next
  case (user ui v ev)
  then show ?case
    by (simp add: app_step_def props_change_def selection_effect_def Let_def sets_selection_keeps)
next
  case (settle ui v i)
  then show ?case by (simp add: settle_request_fields)
qed

lemma panel_count_render:
  "panel_count (render v) = None \<or> panel_count (render v) = Some (length (selected_countries v))"
  by (simp add: render_def Let_def split: option.split)

lemma app_reachable_view:
  "app_reachable has_context draw_image tainted decode data ui v \<Longrightarrow> view_reachable has_context draw_image tainted decode v"
proof (induction rule: app_reachable.induct)
  case (init shuffled)
  show ?case by (rule view_reachable.mount)
next
  case (user ui v ev)
  show ?case
  proof (cases "sets_selection data ui ev")
    case True
    have "view_reachable has_context draw_image tainted decode (props_change (selected (ui_step data ui ev)) v)"
      by (rule view_reachable.step [OF user.IH view_step.select])
    with True show ?thesis by (simp add: app_step_def Let_def)
  next
    case False
    with user.IH show ?thesis by (simp add: app_step_def Let_def)
  qed
next
  case (settle ui v i)
  then show ?case by (blast intro: view_reachable.step [OF settle.IH view_step.settle])
qed

lemma settle_all_progress:
  assumes "app_reachable has_context draw_image tainted decode data ui v" and "n \<le> length (pending_requests v)"
  shows "app_reachable has_context draw_image tainted decode data ui (settle_all has_context draw_image tainted decode n v) \<and>
         length (pending_requests (settle_all has_context draw_image tainted decode n v)) = length (pending_requests v) - n \<and>
         (0 < n \<longrightarrow> \<not> is_loading (settle_all has_context draw_image tainted decode n v))"
  using assms
proof (induction n arbitrary: v)
  case 0
  then show ?case by simp
next
  case (Suc n)
  let ?v1 = "settle_request has_context draw_image tainted decode 0 v"
  have "0 < length (pending_requests v)"
    using Suc.prems(2) by linarith
  then have r1: "app_reachable has_context draw_image tainted decode data ui ?v1"
    by (rule app_reachable.settle [OF Suc.prems(1)])
  have l1: "length (pending_requests ?v1) = length (pending_requests v) - 1"
    by (simp add: settle_request_fields)
  have ih: "app_reachable has_context draw_image tainted decode data ui (settle_all has_context draw_image tainted decode n ?v1) \<and>
      length (pending_requests (settle_all has_context draw_image tainted decode n ?v1)) = length (pending_requests ?v1) - n \<and>
      (0 < n \<longrightarrow> \<not> is_loading (settle_all has_context draw_image tainted decode n ?v1))"
    using Suc.prems(2) l1 by (intro Suc.IH [OF r1]) simp
  have "\<not> is_loading (settle_all has_context draw_image tainted decode n ?v1)"
    using ih by (cases n) (simp_all add: settle_request_fields)
  with ih l1 show ?case by simp
qed

section \<open>Properties\<close>

text \<open>C25. Across the components: clicking an unchecked country's checkbox
  appends it to the selection, and when no other call is pending the combined
  flag then shows the composite of the flags of exactly the new selection, in
  selection order, or the error message if that call fails.\<close>

theorem checkbox_click_shows_composite:
  assumes "code \<notin> set (selected ui)" and "pending_requests v = []"
  shows "fst (app_step data ui v (CheckboxClick code)) = ui\<lparr>selected := selected ui @ [code]\<rparr> \<and>
         render (settle_request has_context draw_image tainted decode 0 (snd (app_step data ui v (CheckboxClick code)))) =
         (case composite_result has_context draw_image tainted decode (map flag_url (selected ui @ [code])) of
            Inr r \<Rightarrow> CombinedImage r (Suc (length (selected ui)))
          | Inl _ \<Rightarrow> ErrorPanel failure_message)"
  using assms
  by (simp add: app_step_checkbox props_change_nonempty settle_request_first on_settled_def render_def
                failure_message_def split: sum.split)

lemma checkbox_click_shows_composite_witness:
  "''fr'' \<notin> set (selected (initial_ui [''de''])) \<and> pending_requests (initial_view []) = [] \<and>
   render (settle_request True draw_opaque no_taint (\<lambda>u. None :: raster option) 0
     (snd (app_step [europe] (initial_ui [''de'']) (initial_view []) (CheckboxClick ''fr'')))) =
   ErrorPanel failure_message"
proof -
  have a: "''fr'' \<notin> set (selected (initial_ui [''de'']))"
    by (simp add: initial_ui_def get_random_countries_def)
  have p: "pending_requests (initial_view []) = []"
    by (simp add: initial_view_def)
  have "composite_result True draw_opaque no_taint (\<lambda>u. None :: raster option)
          (map flag_url (selected (initial_ui [''de'']) @ [''fr''])) = Inl AllImagesFailed"
    by (simp add: composite_result_def final_outcome_def js_trim_def)
  then show ?thesis
    using a p checkbox_click_shows_composite [OF a p, of "[europe]" True draw_opaque no_taint "\<lambda>u. None :: raster option"]
    by simp
qed

text \<open>C26. Across the components: on the page's reachable states, an event that
  stores a new non-empty selection makes \<open>CombinedFlag\<close> start exactly one new
  call, for a list of flag URLs without duplicates, one per selected country.\<close>

theorem requested_flags_distinct:
  assumes "distinct (get_all_country_codes data)" and "ui_reachable data ui" and "event_ok data ev"
    and "sets_selection data ui ev" and "selected (ui_step data ui ev) \<noteq> []"
  shows "pending_requests (snd (app_step data ui v ev)) =
           pending_requests v @ [(next_request_id v, map flag_url (selected (ui_step data ui ev)))] \<and>
         distinct (map flag_url (selected (ui_step data ui ev)))"
proof -
  have "ui_inv data (ui_step data ui ev)"
    using assms(1-3) ui_reachable_inv [OF assms(1,2)] by (simp add: ui_step_inv)
  then have "distinct (selected (ui_step data ui ev))"
    by (simp add: ui_inv_def)
  then have "distinct (map flag_url (selected (ui_step data ui ev)))"
    by (simp add: distinct_map inj_on_def flag_url_inj)
  with assms(4,5) show ?thesis
    by (simp add: app_step_def props_change_nonempty Let_def)
qed

lemma requested_flags_distinct_witness:
  "distinct (get_all_country_codes [europe]) \<and> ui_reachable [europe] (initial_ui [''de'']) \<and>
   event_ok [europe] (CheckboxClick ''fr'') \<and> sets_selection [europe] (initial_ui [''de'']) (CheckboxClick ''fr'') \<and>
   selected (ui_step [europe] (initial_ui [''de'']) (CheckboxClick ''fr'')) = [''de'', ''fr''] \<and>
   pending_requests (snd (app_step [europe] (initial_ui [''de'']) (initial_view []) (CheckboxClick ''fr''))) =
     [(0, [flag_url ''de'', flag_url ''fr''])]"
proof -
  have d: "distinct (get_all_country_codes [europe])" by (simp add: europe_facts)
  have r: "ui_reachable [europe] (initial_ui [''de''])"
  proof -
    have "ui_reachable [europe] (initial_ui [''de'', ''fr''])"
      by (rule ui_reachable.init) (simp add: europe_facts)
    then have "ui_reachable [europe] (ui_step [europe] (initial_ui [''de'', ''fr'']) (CheckboxClick ''fr''))"
      by (rule ui_reachable.step) (simp add: europe_facts)
    then show ?thesis
      by (simp add: initial_ui_def get_random_countries_def handle_country_select_def)
  qed
  have e: "event_ok [europe] (CheckboxClick ''fr'')" by (simp add: europe_facts)
  have s: "sets_selection [europe] (initial_ui [''de'']) (CheckboxClick ''fr'')" by simp
  have n: "selected (ui_step [europe] (initial_ui [''de'']) (CheckboxClick ''fr'')) = [''de'', ''fr'']"
    by (simp add: initial_ui_def get_random_countries_def handle_country_select_def)
  show ?thesis
    using d r e s n requested_flags_distinct [OF d r e s, of "initial_view []"]
    by (simp add: initial_view_def)
qed


text \<open>C33. Across the components: on every state of the page, \<open>CombinedFlag\<close>'s
  prop is \<open>App\<close>'s current selection, so the count a flag panel states is the
  count in the "Selected Countries" heading, and the prompt for an empty
  selection shows exactly when that count is 0.\<close>

theorem page_counts_agree:
  assumes "app_reachable has_context draw_image tainted decode data ui v"
  shows "selected_countries v = selected ui \<and>
         (panel_count (page_flag (render_page data ui v)) = None \<or>
          panel_count (page_flag (render_page data ui v)) =
            Some (selected_count (page_selected (render_page data ui v)))) \<and>
         (page_flag (render_page data ui v) = NoFlagsSelected \<longleftrightarrow>
          selected_count (page_selected (render_page data ui v)) = 0)"
proof -
  have sync: "selected_countries v = selected ui"
    using assms by (rule app_reachable_sync)
  moreover have "render v = NoFlagsSelected \<longleftrightarrow> selected_countries v = []"
    by (simp add: render_def Let_def split: option.split)
  ultimately show ?thesis
    using panel_count_render [of v] by (simp add: render_page_def render_selected_panel_def)
qed

lemma page_counts_agree_witness:
  "app_reachable True draw_opaque no_taint (\<lambda>u. None :: raster option) [europe] (initial_ui [''de'', ''fr''])
     (selection_effect (initial_view (selected (initial_ui [''de'', ''fr''])))) \<and>
   page_flag (render_page [europe] (initial_ui [''de'', ''fr''])
     (selection_effect (initial_view (selected (initial_ui [''de'', ''fr'']))))) = Generating 2 \<and>
   selected_count (page_selected (render_page [europe] (initial_ui [''de'', ''fr''])
     (selection_effect (initial_view (selected (initial_ui [''de'', ''fr''])))))) = 2"
proof -
  have r: "app_reachable True draw_opaque no_taint (\<lambda>u. None :: raster option) [europe] (initial_ui [''de'', ''fr''])
     (selection_effect (initial_view (selected (initial_ui [''de'', ''fr'']))))"
    by (rule app_reachable.init) (simp add: europe_facts)
  have g: "page_flag (render_page [europe] (initial_ui [''de'', ''fr''])
     (selection_effect (initial_view (selected (initial_ui [''de'', ''fr'']))))) = Generating 2"
    by (simp add: render_page_def render_def selection_effect_def initial_view_def initial_ui_def
                  get_random_countries_def)
  show ?thesis
    using r g page_counts_agree [OF r] by simp
qed

text \<open>C35. Across the components: the page never stays in "Generating combined
  flag...". From every state of the page, letting the pending calls settle
  reaches a state of the page with no call pending and the loading flag cleared.\<close>

theorem settle_all_stops_loading:
  assumes "app_reachable has_context draw_image tainted decode data ui v"
  shows "let v' = settle_all has_context draw_image tainted decode (length (pending_requests v)) v
         in app_reachable has_context draw_image tainted decode data ui v' \<and> pending_requests v' = [] \<and> \<not> is_loading v'"
proof (cases "pending_requests v = []")
  case True
  have "view_inv v"
    using app_reachable_view [OF assms] by (rule view_reachable_inv)
  with True assms show ?thesis by (simp add: view_inv_def)
next
  case False
  then show ?thesis
    using settle_all_progress [OF assms order_refl] by (simp add: Let_def)
qed

lemma settle_all_stops_loading_witness:
  "app_reachable True draw_opaque no_taint (\<lambda>u. None :: raster option) [europe] (initial_ui [''de'', ''fr''])
     (selection_effect (initial_view (selected (initial_ui [''de'', ''fr''])))) \<and>
   is_loading (selection_effect (initial_view (selected (initial_ui [''de'', ''fr''])))) \<and>
   \<not> is_loading (settle_all True draw_opaque no_taint (\<lambda>u. None :: raster option)
       (length (pending_requests (selection_effect (initial_view (selected (initial_ui [''de'', ''fr'']))))))
       (selection_effect (initial_view (selected (initial_ui [''de'', ''fr''])))))"
proof -
  have r: "app_reachable True draw_opaque no_taint (\<lambda>u. None :: raster option) [europe] (initial_ui [''de'', ''fr''])
     (selection_effect (initial_view (selected (initial_ui [''de'', ''fr'']))))"
    by (rule app_reachable.init) (simp add: europe_facts)
  have l: "is_loading (selection_effect (initial_view (selected (initial_ui [''de'', ''fr'']))))"
    by (simp add: selection_effect_def initial_view_def initial_ui_def get_random_countries_def)
  show ?thesis
    using r l settle_all_stops_loading [OF r] by (simp add: Let_def)
qed

end
